theory Spec2Isabelle
  imports Main
begin

section \<open>dictmaker: process initialisation (cmd/dictmaker/init.go)\<close>

text \<open>
  The file \<^verbatim>\<open>init.go\<close> wires the program to its surroundings: the disk, the
  running executable, the stuffbin asset bundle, Go plugins, the koanf configuration
  and the chi router. Those libraries are not part of the repository, so each call
  into them is a field of a record (\<open>World\<close>, \<open>Koanf\<close>, \<open>Plugin\<close>,
  \<open>FileSystem\<close>) that says what the call answers; the functions of \<^verbatim>\<open>init.go\<close>
  are translated over these records, branch by branch.

  A Go \<^verbatim>\<open>error\<close> is its message; \<^verbatim>\<open>nil\<close> is \<open>None\<close>. A Go result pair
  \<^verbatim>\<open>(v, err)\<close> of a library call is a sum (\<open>Inl\<close> the error).
\<close>

type_synonym error = string

subsection \<open>Data\<close>

text \<open>
  Modelled from the spec: the declaration of the interface \<^verbatim>\<open>data.Tokenizer\<close>
  (package \<^verbatim>\<open>internal/data\<close>) is not among the sources. The spec's Tokenizer
  contract is "id() -> string, tokenize(text) -> ordered sequence of normalized tokens";
  \<^verbatim>\<open>init.go\<close> only calls \<^verbatim>\<open>ID()\<close>, so a tokenizer is given by its ID and
  whatever else it holds. An interface value is \<open>Tokenizer option\<close>: \<open>None\<close> is the
  nil interface.
\<close>

record Tokenizer =
  ID :: string

text \<open>
  Modelled from the spec: the declaration of \<^verbatim>\<open>data.Lang\<close> (package
  \<^verbatim>\<open>internal/data\<close>) is not among the sources. The spec's Language is
  "code, display name, assigned tokenizer identifier, a mapping of entry-type codes to
  display labels"; \<^verbatim>\<open>init.go\<close> itself uses the fields \<^verbatim>\<open>Types\<close>,
  \<^verbatim>\<open>TokenizerType\<close>, \<^verbatim>\<open>TokenizerName\<close> and \<^verbatim>\<open>Tokenizer\<close>. The code is
  the key of the \<^verbatim>\<open>LangMap\<close>.
\<close>

record Lang =
  Name :: string
  Types :: "string \<rightharpoonup> string"
  TokenizerName :: string
  TokenizerType :: string
  Tokenizer :: "Tokenizer option"

type_synonym LangMap = "string \<rightharpoonup> Lang"

text \<open>
  A symbol of a plugin is a value of any type (\<^verbatim>\<open>interface{}\<close>). The type assertion
  of \<open>loadTokenizerPlugin\<close> tells two cases apart: a
  \<^verbatim>\<open>func() (data.Tokenizer, error)\<close>, given by what a call returns, and anything else.
\<close>

datatype Symbol =
    TokenizerFunc "unit \<Rightarrow> Tokenizer option \<times> error option"
  | OtherSymbol

record Plugin =
  Lookup :: "string \<Rightarrow> error + Symbol"

text \<open>\<^verbatim>\<open>stuffbin.FileSystem\<close>: only \<^verbatim>\<open>Read\<close> is called here. File contents are byte strings.\<close>

record FileSystem =
  Read :: "string \<Rightarrow> error + string"

text \<open>How \<^verbatim>\<open>ioutil.WriteFile\<close> can fail: before the file is opened (nothing is
  written), or after it was created and truncated, with only the first \<open>n\<close> bytes written.\<close>

datatype WriteFault = OpenFails error | WriteFails error nat

text \<open>An error of \<^verbatim>\<open>os.Stat\<close>: the file does not exist, or anything else
  (a permission error, for instance).\<close>

datatype StatError = ErrNotExist | ErrOther error

text \<open>
  The surroundings of the process. \<open>logger\<close> holds the lines printed by
  \<^verbatim>\<open>logger.Printf\<close>, \<open>disk\<close> the files of the working directory;
  \<open>stat_fault\<close> and \<open>write_fault\<close> say which paths the operating system refuses.
  The other fields are the answers of library calls.
\<close>

record World =
  logger :: "string list"
  disk :: "string \<rightharpoonup> string"
  stat_fault :: "string \<rightharpoonup> error"
  write_fault :: "string \<rightharpoonup> WriteFault"
  os_Executable :: "error + string"
  stuffbin_UnStuff :: "string \<Rightarrow> error + FileSystem"
  stuffbin_NewLocalFS :: "string \<Rightarrow> string list \<Rightarrow> error + FileSystem"
  plugin_Open :: "string \<Rightarrow> error + Plugin"

text \<open>\<^verbatim>\<open>koanf.Koanf\<close>: the keys under a path, and the decoding of the sub-tree at a
  path into a \<^verbatim>\<open>data.Lang\<close> that already holds some values.\<close>

record Koanf =
  MapKeys :: "string \<Rightarrow> string list"
  UnmarshalWithConf :: "string \<Rightarrow> Lang \<Rightarrow> error + Lang"

text \<open>
  How a function that may stop the process ends: it returns, \<^verbatim>\<open>log.Fatalf\<close> prints
  a message and exits, or the Go runtime panics.
\<close>

datatype 'a outcome = Return 'a | Fatal string | Panic string

definition logger_Printf :: "World \<Rightarrow> string \<Rightarrow> World" where
  "logger_Printf w line = w\<lparr>logger := logger w @ [line]\<rparr>"

definition quote :: string where
  "quote = [CHR 0x27]"

subsection \<open>loadTokenizerPlugin\<close>

definition loadTokenizerPlugin :: "World \<Rightarrow> string \<Rightarrow> Tokenizer option \<times> error option" where
  "loadTokenizerPlugin w path =
     (case plugin_Open w path of
        Inl err \<Rightarrow>
          (None, Some (''error loading tokenizer plugin '' @ quote @ path @ quote @ '': '' @ err))
      | Inr plg \<Rightarrow>
          (case Lookup plg ''New'' of
             Inl err \<Rightarrow>
               (None, Some (''New() function not found in plugin '' @ quote @ path @ quote @ '': '' @ err))
           | Inr newFunc \<Rightarrow>
               (case newFunc of
                  OtherSymbol \<Rightarrow>
                    (None, Some (''New() function is of invalid type in plugin '' @ quote @ path @ quote))
                | TokenizerFunc f \<Rightarrow>
                    (case f () of
                       (p, Some err) \<Rightarrow>
                         (None, Some (''error initializing provider plugin '' @ quote @ path @ quote @ '': '' @ err))
                     | (p, None) \<Rightarrow> (p, None)))))"

subsection \<open>initLangs\<close>

text \<open>The literal \<^verbatim>\<open>data.Lang{Types: make(map[string]string)}\<close>: every other field
  has its zero value.\<close>

definition newLang :: Lang where
  "newLang = \<lparr>Name = '''', Types = Map.empty, TokenizerName = '''', TokenizerType = '''',
     Tokenizer = None\<rparr>"

text \<open>
  The \<^verbatim>\<open>for ... range ko.MapKeys("lang")\<close> loop, with the map \<open>out\<close> built so far.
  Calling \<^verbatim>\<open>tk.ID()\<close> on a nil interface value is a runtime panic.
\<close>

fun initLangs_loop :: "Koanf \<Rightarrow> string list \<Rightarrow> LangMap \<Rightarrow> World \<Rightarrow> (LangMap \<times> World) outcome" where
  "initLangs_loop ko [] out w = Return (out, w)"
| "initLangs_loop ko (l # ls) out w =
     (case UnmarshalWithConf ko (''lang.'' @ l) newLang of
        Inl err \<Rightarrow> Fatal (''error loading languages: '' @ err)
      | Inr lang \<Rightarrow>
          (let w1 = logger_Printf w (''language: '' @ l) in
           if TokenizerType lang = ''plugin'' then
             (case loadTokenizerPlugin w1 (TokenizerName lang) of
                (tk, Some err) \<Rightarrow>
                  Fatal (''error loading tokenizer plugin for '' @ l @ '': '' @ err)
              | (None, None) \<Rightarrow> Panic ''invalid memory address or nil pointer dereference''
              | (Some t, None) \<Rightarrow>
                  (let lang1 = lang\<lparr>Tokenizer := Some t\<rparr>;
                       lang2 = lang1\<lparr>TokenizerName := ID t\<rparr>;
                       w2 = logger_Printf w1 (''loaded tokenizer '' @ TokenizerName lang2)
                   in initLangs_loop ko ls (out(l \<mapsto> lang2)) w2))
           else initLangs_loop ko ls (out(l \<mapsto> lang)) w1))"

definition initLangs :: "Koanf \<Rightarrow> World \<Rightarrow> (LangMap \<times> World) outcome" where
  "initLangs ko w = initLangs_loop ko (MapKeys ko ''lang'') Map.empty w"

subsection \<open>initFileSystem\<close>

definition initFileSystem :: "World \<Rightarrow> (error + FileSystem) \<times> World" where
  "initFileSystem w =
     (case os_Executable w of
        Inl err \<Rightarrow> (Inl err, w)
      | Inr path \<Rightarrow>
          (case stuffbin_UnStuff w path of
             Inr fs \<Rightarrow> (Inr fs, w)
           | Inl err \<Rightarrow>
               (let w1 = logger_Printf w (''unable to initialize embedded filesystem: '' @ err);
                    w2 = logger_Printf w1 ''using local filesystem for static assets'';
                    files = [''config.toml.sample'', ''queries.sql'', ''schema.sql'']
                in case stuffbin_NewLocalFS w2 ''/'' files of
                     Inl err \<Rightarrow>
                       (Inl (''failed to initialize local file for assets: '' @ err), w2)
                   | Inr fs \<Rightarrow> (Inr fs, w2))))"

subsection \<open>generateNewFiles\<close>

text \<open>
  \<^verbatim>\<open>os.Stat\<close> (its \<^verbatim>\<open>FileInfo\<close> is discarded by the caller): the operating
  system refuses, or says truthfully whether the file is there.
\<close>

definition os_Stat :: "World \<Rightarrow> string \<Rightarrow> StatError option" where
  "os_Stat w name =
     (case stat_fault w name of
        Some e \<Rightarrow> Some (ErrOther e)
      | None \<Rightarrow> (case disk w name of None \<Rightarrow> Some ErrNotExist | Some _ \<Rightarrow> None))"

fun os_IsNotExist :: "StatError option \<Rightarrow> bool" where
  "os_IsNotExist (Some ErrNotExist) = True"
| "os_IsNotExist _ = False"

text \<open>\<^verbatim>\<open>ioutil.WriteFile\<close>: create or truncate the file, write the bytes, close.\<close>

definition ioutil_WriteFile :: "World \<Rightarrow> string \<Rightarrow> string \<Rightarrow> error option \<times> World" where
  "ioutil_WriteFile w name b =
     (case write_fault w name of
        None \<Rightarrow> (None, w\<lparr>disk := (disk w)(name \<mapsto> b)\<rparr>)
      | Some (OpenFails e) \<Rightarrow> (Some e, w)
      | Some (WriteFails e n) \<Rightarrow> (Some e, w\<lparr>disk := (disk w)(name \<mapsto> take n b)\<rparr>))"

definition generateNewFiles :: "World \<Rightarrow> error option \<times> World" where
  "generateNewFiles w =
     (if \<not> os_IsNotExist (os_Stat w ''config.toml'') then
        (Some ''config.toml exists. Remove it to generate a new one'', w)
      else
        (case initFileSystem w of
           (Inl err, w1) \<Rightarrow> (Some err, w1)
         | (Inr fs, w1) \<Rightarrow>
             (case Read fs ''config.toml.sample'' of
                Inl err \<Rightarrow>
                  (Some (''error reading sample config (is binary stuffed?): '' @ err), w1)
              | Inr b \<Rightarrow>
                  (case ioutil_WriteFile w1 ''config.toml'' b of
                     (Some err, w2) \<Rightarrow> (Some err, w2)
                   | (None, w2) \<Rightarrow> (None, w2)))))"

subsection \<open>initHandlers\<close>

text \<open>
  The \<^verbatim>\<open>App\<close> type and the handler functions live in other files of the package,
  which are not among the sources; \<open>initHandlers\<close> reads
  \<^verbatim>\<open>app.constants.Site\<close> and passes the handlers on by name, so \<open>App\<close> is a
  record with that field and whatever else it holds, and a handler is the expression
  that builds it. A directory served by \<^verbatim>\<open>http.FileServer\<close> is
  \<^verbatim>\<open>http.Dir\<close> of a literal path or of the \<^verbatim>\<open>filepath.Join\<close> of two parts.

  The router \<^verbatim>\<open>chi.Mux\<close> is the record of what was registered with it, in the
  order of the calls; how chi serves a request from these registrations is not part of
  the model.
\<close>

record Consts =
  Site :: string

record App =
  constants :: Consts

datatype Method = GET | POST | PUT | DELETE

datatype Middleware = StripSlashes

datatype HandlerFunc =
    handleIndexPage | handleSearchPage | handleGlossaryPage | handleStaticPage
  | adminPage string
  | handleGetConfig | handleGetStats | handleInsertEntry | handleGetEntry
  | handleGetParentEntries | handleDeleteEntry | handleDeleteRelation | handleAddRelation
  | handleReorderRelations | handleUpdateRelation | handleUpdateEntry | handleSearch

datatype Dir = Dir string | filepath_Join string string

datatype Handler =
    wrap App HandlerFunc
  | StripPrefix string Handler
  | FileServer Dir
  | sendResponse string nat

record Mux =
  middlewares :: "Middleware list"
  routes :: "(Method \<times> string \<times> Handler) list"

definition Use :: "Mux \<Rightarrow> Middleware \<Rightarrow> Mux" where
  "Use r m = r\<lparr>middlewares := middlewares r @ [m]\<rparr>"

definition Get :: "Mux \<Rightarrow> string \<Rightarrow> Handler \<Rightarrow> Mux" where
  "Get r p h = r\<lparr>routes := routes r @ [(GET, p, h)]\<rparr>"

definition Post :: "Mux \<Rightarrow> string \<Rightarrow> Handler \<Rightarrow> Mux" where
  "Post r p h = r\<lparr>routes := routes r @ [(POST, p, h)]\<rparr>"

definition Put :: "Mux \<Rightarrow> string \<Rightarrow> Handler \<Rightarrow> Mux" where
  "Put r p h = r\<lparr>routes := routes r @ [(PUT, p, h)]\<rparr>"

definition Delete :: "Mux \<Rightarrow> string \<Rightarrow> Handler \<Rightarrow> Mux" where
  "Delete r p h = r\<lparr>routes := routes r @ [(DELETE, p, h)]\<rparr>"

definition http_StatusOK :: nat where
  "http_StatusOK = 200"

definition initHandlers :: "Mux \<Rightarrow> App \<Rightarrow> Mux" where
  "initHandlers r0 app =
     (let r = Use r0 StripSlashes;
          r = (if Site (constants app) \<noteq> '''' then
                 (let r = Get r ''/'' (wrap app handleIndexPage);
                      r = Get r ''/dictionary/{fromLang}/{toLang}/{q}'' (wrap app handleSearchPage);
                      r = Get r ''/dictionary/{fromLang}/{toLang}'' (wrap app handleGlossaryPage);
                      r = Get r ''/glossary/{fromLang}/{toLang}/{initial}'' (wrap app handleGlossaryPage);
                      r = Get r ''/glossary/{fromLang}/{toLang}'' (wrap app handleGlossaryPage);
                      r = Get r ''/pages/{page}'' (wrap app handleStaticPage);
                      fs = StripPrefix ''/static''
                             (FileServer (filepath_Join (Site (constants app)) ''static''))
                  in Get r ''/static/*'' fs)
               else
                 Get r ''/'' (sendResponse ''welcome to dictmaker'' http_StatusOK));
          r = Get r ''/admin/static/*''
                (StripPrefix ''/admin/static'' (FileServer (Dir ''admin/static'')));
          r = Get r ''/admin'' (wrap app (adminPage ''index''));
          r = Get r ''/admin/search'' (wrap app (adminPage ''search''));
          r = Get r ''/admin/entries/{guid}'' (wrap app (adminPage ''entry''));
          r = Get r ''/api/config'' (wrap app handleGetConfig);
          r = Get r ''/api/stats'' (wrap app handleGetStats);
          r = Post r ''/api/entries'' (wrap app handleInsertEntry);
          r = Get r ''/api/entries/{guid}'' (wrap app handleGetEntry);
          r = Get r ''/api/entries/{guid}/parents'' (wrap app handleGetParentEntries);
          r = Delete r ''/api/entries/{guid}'' (wrap app handleDeleteEntry);
          r = Delete r ''/api/entries/{fromGuid}/relations/{toGuid}'' (wrap app handleDeleteRelation);
          r = Post r ''/api/entries/{fromGuid}/relations/{toGuid}'' (wrap app handleAddRelation);
          r = Put r ''/api/entries/{guid}/relations/weights'' (wrap app handleReorderRelations);
          r = Put r ''/api/entries/{guid}/relations/{relID}'' (wrap app handleUpdateRelation);
          r = Put r ''/api/entries/{guid}'' (wrap app handleUpdateEntry)
      in Get r ''/api/dictionary/{fromLang}/{toLang}/{q}'' (wrap app handleSearch))"

text \<open>The routes that one call of \<open>initHandlers\<close> adds to the router it is given.\<close>

definition registered :: "Mux \<Rightarrow> App \<Rightarrow> (Method \<times> string \<times> Handler) list" where
  "registered r app = drop (length (routes r)) (routes (initHandlers r app))"

section \<open>The relation graph (spec section 4.2)\<close>

text \<open>
  Modelled from the spec: the code behind \<^verbatim>\<open>handleAddRelation\<close> and
  \<^verbatim>\<open>handleReorderRelations\<close> (the data package and its queries) is not among the
  sources; \<^verbatim>\<open>init.go\<close> only registers the two handlers. The definitions of this
  section follow section 3 (data model), section 4.2 (operations) and section 7 (errors)
  of the spec, sentence by sentence.
\<close>

type_synonym GUID = string

text \<open>
  Modelled from the spec: "Entry: unique identifier (GUID), language code, textual
  content, entry type (word/phrase/definition)".
\<close>

record Entry =
  guid :: GUID
  language :: string
  content :: string
  entryType :: string

text \<open>
  Modelled from the spec: "Relation: directed edge {fromEntryID, toEntryID,
  relationType, weight, optional note}", the weight an integer (the note is the field
  \<open>relNote\<close>). \<open>reorderRelations\<close> names relations by an ID that the data model does
  not list: here it is a number given to the relation when it is created.
\<close>

record Relation =
  relID :: nat
  fromEntryID :: GUID
  toEntryID :: GUID
  relationType :: string
  weight :: int
  relNote :: "string option"

text \<open>Modelled from the spec: the RelationGraph "stores entries and directed, typed,
  weighted edges between them"; both are kept in creation order, with the ID that the
  next relation will get.\<close>

record Graph =
  entries :: "Entry list"
  relations :: "Relation list"
  nextRelID :: nat

text \<open>Modelled from the spec: the error taxonomy of section 7.\<close>

datatype OpError = ValidationError | NotFound | Conflict | UnknownLanguage | StorageFailure

text \<open>Modelled from the spec: an endpoint is "missing" when no entry has this GUID.\<close>

definition hasEntry :: "Graph \<Rightarrow> GUID \<Rightarrow> bool" where
  "hasEntry g x = (x \<in> guid ` set (entries g))"

text \<open>Modelled from the spec: "the (fromGuid, type) group", the outbound relations of one
  entry and one relation type, in creation order.\<close>

definition siblings :: "Graph \<Rightarrow> GUID \<Rightarrow> string \<Rightarrow> Relation list" where
  "siblings g f ty = filter (\<lambda>r. fromEntryID r = f \<and> relationType r = ty) (relations g)"

text \<open>Modelled from the spec: "weight = current max weight in the (fromGuid, type) group
  + 1 (or 0 if the group is empty)".\<close>

definition nextWeight :: "Graph \<Rightarrow> GUID \<Rightarrow> string \<Rightarrow> int" where
  "nextWeight g f ty =
     (case siblings g f ty of
        [] \<Rightarrow> 0
      | r # rs \<Rightarrow> fold max (map weight rs) (weight r) + 1)"

text \<open>
  Modelled from the spec: "addRelation(fromGuid, toGuid, type, note): appends a new
  Relation with weight = current max weight in the (fromGuid, type) group + 1 (or 0 if
  the group is empty); fails with NotFound if either endpoint is missing; fails with
  Conflict if an identical (fromGuid, toGuid, type) relation already exists." A failed
  call leaves the graph as it was.
\<close>

definition addRelation ::
  "Graph \<Rightarrow> GUID \<Rightarrow> GUID \<Rightarrow> string \<Rightarrow> string option \<Rightarrow> OpError option \<times> Graph" where
  "addRelation g fromGuid toGuid ty nt =
     (if \<not> hasEntry g fromGuid \<or> \<not> hasEntry g toGuid then (Some NotFound, g)
      else if list_ex (\<lambda>r. fromEntryID r = fromGuid \<and> toEntryID r = toGuid \<and> relationType r = ty)
                (relations g)
        then (Some Conflict, g)
      else
        (None,
         g\<lparr>relations := relations g @
              [\<lparr>relID = nextRelID g, fromEntryID = fromGuid, toEntryID = toGuid,
                relationType = ty, weight = nextWeight g fromGuid ty, relNote = nt\<rparr>],
           nextRelID := Suc (nextRelID g)\<rparr>))"

text \<open>Modelled from the spec: "N sequential addRelation calls" into one group, one
  call per target, in the order of the list: the result of every call, and the graph
  after the last.\<close>

fun addRelations ::
  "Graph \<Rightarrow> GUID \<Rightarrow> string \<Rightarrow> (GUID \<times> string option) list \<Rightarrow> OpError option list \<times> Graph" where
  "addRelations g f ty [] = ([], g)"
| "addRelations g f ty ((t, nt) # ts) =
     (case addRelation g f t ty nt of
        (res, g1) \<Rightarrow> (case addRelations g1 f ty ts of (ress, g2) \<Rightarrow> (res # ress, g2)))"

text \<open>Modelled from the spec: "its position in the list (0-based)", of the first
  occurrence where the list repeats an element.\<close>

fun position :: "'a list \<Rightarrow> 'a \<Rightarrow> nat option" where
  "position [] x = None"
| "position (y # ys) x = (if x = y then Some 0 else map_option Suc (position ys x))"

text \<open>Modelled from the spec: the relation type of the outbound relation of an entry that
  has a given ID, which is the type of "the sibling group" that a list starting with
  this ID is about.\<close>

definition relationTypeOf :: "Graph \<Rightarrow> GUID \<Rightarrow> nat \<Rightarrow> string option" where
  "relationTypeOf g x i =
     map_option relationType (find (\<lambda>r. relID r = i \<and> fromEntryID r = x) (relations g))"

text \<open>Modelled from the spec: "validate the supplied set is exactly the sibling group":
  the list names every relation of the group, each once.\<close>

definition exactlyGroup :: "nat list \<Rightarrow> nat list \<Rightarrow> bool" where
  "exactlyGroup ids gids =
     (distinct ids \<and> length ids = length gids \<and> list_all (\<lambda>i. i \<in> set gids) ids)"

text \<open>Modelled from the spec: "rewrites the weight of every relation in the supplied list
  to match its position in the list (0-based)", for one outbound relation of the entry;
  "relations not named in the list are left unchanged".\<close>

definition reweigh :: "GUID \<Rightarrow> nat list \<Rightarrow> Relation \<Rightarrow> Relation" where
  "reweigh x ids r =
     (if fromEntryID r = x
      then (case position ids (relID r) of
              Some k \<Rightarrow> r\<lparr>weight := int k\<rparr>
            | None \<Rightarrow> r)
      else r)"

text \<open>
  Modelled from the spec: "reorderRelations(guid, orderedRelationIDs): atomically
  rewrites the weight of every relation in the supplied list to match its position in
  the list (0-based); must be all-or-nothing [...]. Relations not named in the list are
  left unchanged [...] at their prior weight (implementers must guarantee no overlap:
  either validate the supplied set is exactly the sibling group, or renumber starting
  above the current maximum of the untouched remainder)". Of the two means the spec
  allows, this is the first: it is the one under which the new weights are the
  0-based positions, as the first sentence says. Section 7 gives the errors:
  \<open>NotFound\<close> ("referenced GUID/relation absent") when the entry does not exist or an
  ID of the list is not the ID of one of its outbound relations, \<open>ValidationError\<close>
  ("malformed input") when the list is not exactly one sibling group of the entry.
  The whole list is checked first and the weights are then rewritten in one step; a
  failed call leaves the graph as it was. An empty list names no relation and rewrites
  nothing.
\<close>

definition reorderRelations :: "Graph \<Rightarrow> GUID \<Rightarrow> nat list \<Rightarrow> OpError option \<times> Graph" where
  "reorderRelations g x ids =
     (if \<not> hasEntry g x then (Some NotFound, g)
      else if \<not> list_all (\<lambda>i. list_ex (\<lambda>r. relID r = i \<and> fromEntryID r = x) (relations g)) ids
        then (Some NotFound, g)
      else
        (case ids of
           [] \<Rightarrow> (None, g)
         | i # _ \<Rightarrow>
             (case relationTypeOf g x i of
                None \<Rightarrow> (Some NotFound, g)
              | Some ty \<Rightarrow>
                  if \<not> exactlyGroup ids (map relID (siblings g x ty))
                  then (Some ValidationError, g)
                  else
                    (None, g\<lparr>relations := map (reweigh x ids) (relations g)\<rparr>))))"

section \<open>Auxiliary definitions\<close>

text \<open>
  What one round of the loop of \<open>initLangs\<close> stores for the language code \<open>l\<close>, when
  the round neither exits nor panics. It is a reading aid for the proofs: the loop is
  related to it in \<open>initLangs_loop_Return\<close>.
\<close>

definition entryFor :: "Koanf \<Rightarrow> World \<Rightarrow> string \<Rightarrow> Lang option" where
  "entryFor ko w l =
     (case UnmarshalWithConf ko (''lang.'' @ l) newLang of
        Inl err \<Rightarrow> None
      | Inr lang \<Rightarrow>
          if TokenizerType lang = ''plugin'' then
            (case loadTokenizerPlugin w (TokenizerName lang) of
               (Some t, None) \<Rightarrow> Some (lang\<lparr>Tokenizer := Some t, TokenizerName := ID t\<rparr>)
             | _ \<Rightarrow> None)
          else Some lang)"

subsection \<open>Concrete inputs\<close>

text \<open>
  A small installation, used to run the definitions: two languages, one of them with
  a tokenizer plugin \<^verbatim>\<open>ml.so\<close> whose \<^verbatim>\<open>New()\<close> returns a tokenizer with the ID
  \<^verbatim>\<open>phonetic\<close>; a binary that was not stuffed, so that assets come from the local
  file system; no \<^verbatim>\<open>config.toml\<close> yet.
\<close>

definition demoTokenizer :: Tokenizer where
  "demoTokenizer = \<lparr>ID = ''phonetic''\<rparr>"

definition demoPlugin :: Plugin where
  "demoPlugin =
     \<lparr>Lookup = (\<lambda>s. if s = ''New''
                     then Inr (TokenizerFunc (\<lambda>_. (Some demoTokenizer, None)))
                     else Inl ''symbol not found'')\<rparr>"

definition demoFS :: FileSystem where
  "demoFS =
     \<lparr>Read = (\<lambda>p. if p = ''config.toml.sample'' then Inr ''[app]'' else Inl ''file not found'')\<rparr>"

definition demoWorld :: World where
  "demoWorld =
     \<lparr>logger = [], disk = Map.empty, stat_fault = Map.empty, write_fault = Map.empty,
      os_Executable = Inr ''/usr/bin/dictmaker'',
      stuffbin_UnStuff = (\<lambda>p. Inl ''no stuffed data''),
      stuffbin_NewLocalFS = (\<lambda>root names. Inr demoFS),
      plugin_Open = (\<lambda>p. if p = ''ml.so'' then Inr demoPlugin else Inl ''cannot open'')\<rparr>"

definition demoKoanf :: Koanf where
  "demoKoanf =
     \<lparr>MapKeys = (\<lambda>p. if p = ''lang'' then [''en'', ''ml''] else []),
      UnmarshalWithConf = (\<lambda>p lang.
        if p = ''lang.en'' then
          Inr (lang\<lparr>Name := ''English'', Types := [''noun'' \<mapsto> ''Noun''],
                    TokenizerName := ''english'', TokenizerType := ''postgres''\<rparr>)
        else if p = ''lang.ml'' then
          Inr (lang\<lparr>Name := ''Malayalam'', Types := [''noun'' \<mapsto> ''Namam''],
                    TokenizerName := ''ml.so'', TokenizerType := ''plugin''\<rparr>)
        else Inl ''no such key'')\<rparr>"

text \<open>The same configuration with a plugin file that cannot be opened, and with a
  language section that does not decode.\<close>

definition brokenPluginKoanf :: Koanf where
  "brokenPluginKoanf =
     demoKoanf\<lparr>UnmarshalWithConf := (\<lambda>p lang.
        if p = ''lang.ml'' then
          Inr (lang\<lparr>Name := ''Malayalam'', TokenizerName := ''xx.so'', TokenizerType := ''plugin''\<rparr>)
        else UnmarshalWithConf demoKoanf p lang)\<rparr>"

definition brokenLangKoanf :: Koanf where
  "brokenLangKoanf =
     demoKoanf\<lparr>UnmarshalWithConf := (\<lambda>p lang.
        if p = ''lang.ml'' then Inl ''types: expected a map''
        else UnmarshalWithConf demoKoanf p lang)\<rparr>"

text \<open>Variants of the installation: the path of the executable cannot be determined;
  the binary is stuffed; a \<^verbatim>\<open>config.toml\<close> is already there.\<close>

definition noExecutableWorld :: World where
  "noExecutableWorld =
     demoWorld\<lparr>os_Executable := Inl ''readlink /proc/self/exe: permission denied''\<rparr>"

definition stuffedWorld :: World where
  "stuffedWorld = demoWorld\<lparr>stuffbin_UnStuff := (\<lambda>p. Inr demoFS)\<rparr>"

definition existingConfigWorld :: World where
  "existingConfigWorld = demoWorld\<lparr>disk := [''config.toml'' \<mapsto> ''[app] # mine'']\<rparr>"

text \<open>A fresh router, an application with a site directory and one without.\<close>

definition chi_NewRouter :: Mux where
  "chi_NewRouter = \<lparr>middlewares = [], routes = []\<rparr>"

definition demoApp :: App where
  "demoApp = \<lparr>constants = \<lparr>Site = ''site''\<rparr>\<rparr>"

definition apiOnlyApp :: App where
  "apiOnlyApp = \<lparr>constants = \<lparr>Site = ''''\<rparr>\<rparr>"

text \<open>The three entries of the spec's example (section 8) with no relation yet; the same
  graph after \<^verbatim>\<open>sprint\<close> and \<^verbatim>\<open>jog\<close> were made synonyms of \<^verbatim>\<open>run\<close>; and that
  graph with one more relation of another type.\<close>

definition demoGraph :: Graph where
  "demoGraph =
     \<lparr>entries = [\<lparr>guid = ''1'', language = ''en'', content = ''run'', entryType = ''word''\<rparr>,
                 \<lparr>guid = ''2'', language = ''en'', content = ''sprint'', entryType = ''word''\<rparr>,
                 \<lparr>guid = ''3'', language = ''en'', content = ''jog'', entryType = ''word''\<rparr>],
      relations = [], nextRelID = 0\<rparr>"

definition synonymGraph :: Graph where
  "synonymGraph =
     demoGraph\<lparr>relations :=
        [\<lparr>relID = 0, fromEntryID = ''1'', toEntryID = ''2'', relationType = ''synonym'',
          weight = 0, relNote = None\<rparr>,
         \<lparr>relID = 1, fromEntryID = ''1'', toEntryID = ''3'', relationType = ''synonym'',
          weight = 1, relNote = None\<rparr>],
        nextRelID := 2\<rparr>"

definition reorderGraph :: Graph where
  "reorderGraph =
     synonymGraph\<lparr>relations := relations synonymGraph @
        [\<lparr>relID = 2, fromEntryID = ''1'', toEntryID = ''2'', relationType = ''related'',
          weight = 5, relNote = Some ''loosely''\<rparr>],
        nextRelID := 3\<rparr>"

section \<open>Properties of the initialisation code\<close>

subsection \<open>Loading a tokenizer plugin\<close>

lemma loadTokenizerPlugin_plugin_Open:
  "plugin_Open w1 = plugin_Open w \<Longrightarrow> loadTokenizerPlugin w1 p = loadTokenizerPlugin w p"
  by (simp add: loadTokenizerPlugin_def)

lemma plugin_Open_logger_Printf: "plugin_Open (logger_Printf w s) = plugin_Open w"
  by (simp add: logger_Printf_def)

text \<open>
  Claim C2. \<open>loadTokenizerPlugin\<close> returns an error exactly when the plugin cannot be
  opened, or has no symbol \<^verbatim>\<open>New\<close>, or \<^verbatim>\<open>New\<close> is not a
  \<^verbatim>\<open>func() (data.Tokenizer, error)\<close>, or the call of \<^verbatim>\<open>New()\<close> returns an
  error; with an error it returns no tokenizer; without one it returns the tokenizer
  that \<^verbatim>\<open>New()\<close> produced.
\<close>

theorem loadTokenizerPlugin_error_iff:
  "(snd (loadTokenizerPlugin w path) \<noteq> None) =
     (isl (plugin_Open w path) \<or>
      (\<exists>plg. plugin_Open w path = Inr plg \<and>
         (isl (Lookup plg ''New'') \<or>
          Lookup plg ''New'' = Inr OtherSymbol \<or>
          (\<exists>f. Lookup plg ''New'' = Inr (TokenizerFunc f) \<and> snd (f ()) \<noteq> None))))
   \<and> (snd (loadTokenizerPlugin w path) \<noteq> None \<longrightarrow> fst (loadTokenizerPlugin w path) = None)
   \<and> (snd (loadTokenizerPlugin w path) = None \<longrightarrow>
        (\<exists>plg f. plugin_Open w path = Inr plg \<and> Lookup plg ''New'' = Inr (TokenizerFunc f) \<and>
           loadTokenizerPlugin w path = (fst (f ()), None)))"
  unfolding loadTokenizerPlugin_def
  by (auto split: sum.splits Symbol.splits prod.splits option.splits)

theorem loadTokenizerPlugin_error_iff_witness:
  "loadTokenizerPlugin demoWorld ''ml.so'' = (Some demoTokenizer, None)
   \<and> fst (loadTokenizerPlugin demoWorld ''xx.so'') = None
   \<and> snd (loadTokenizerPlugin demoWorld ''xx.so'') \<noteq> None"
  using loadTokenizerPlugin_error_iff [of demoWorld "''ml.so''"]
    loadTokenizerPlugin_error_iff [of demoWorld "''xx.so''"]
  by (simp add: demoWorld_def demoPlugin_def)

subsection \<open>The language loop\<close>

lemma entryFor_plugin_Open:
  "plugin_Open w1 = plugin_Open w \<Longrightarrow> entryFor ko w1 l = entryFor ko w l"
  by (simp add: entryFor_def loadTokenizerPlugin_plugin_Open [of w1 w] split: sum.splits)

lemma initLangs_loop_Cons_Return:
  assumes "initLangs_loop ko (l # ls) out w = Return r"
  shows "\<exists>e w1. entryFor ko w l = Some e \<and> plugin_Open w1 = plugin_Open w \<and>
           initLangs_loop ko ls (out(l \<mapsto> e)) w1 = Return r"
proof (cases "UnmarshalWithConf ko (''lang.'' @ l) newLang")
  case (Inl err)
  with assms show ?thesis by simp
next
  case (Inr lang)
  let ?w1 = "logger_Printf w (''language: '' @ l)"
  have ld: "loadTokenizerPlugin ?w1 (TokenizerName lang) = loadTokenizerPlugin w (TokenizerName lang)"
    by (rule loadTokenizerPlugin_plugin_Open) (rule plugin_Open_logger_Printf)
  show ?thesis
  proof (cases "TokenizerType lang = ''plugin''")
    case False
    with assms Inr have "initLangs_loop ko ls (out(l \<mapsto> lang)) ?w1 = Return r"
      by (simp add: Let_def)
    moreover from Inr False have "entryFor ko w l = Some lang"
      by (simp add: entryFor_def)
    ultimately show ?thesis
      using plugin_Open_logger_Printf by blast
  next
    case True
    obtain tk err where res: "loadTokenizerPlugin w (TokenizerName lang) = (tk, err)"
      by (cases "loadTokenizerPlugin w (TokenizerName lang)")
    from assms Inr True res ld obtain t where t: "tk = Some t" "err = None"
      by (cases tk; cases err) (simp_all add: Let_def)
    let ?e = "lang\<lparr>Tokenizer := Some t, TokenizerName := ID t\<rparr>"
    let ?w2 = "logger_Printf ?w1 (''loaded tokenizer '' @ ID t)"
    from assms Inr True res ld t have "initLangs_loop ko ls (out(l \<mapsto> ?e)) ?w2 = Return r"
      by (simp add: Let_def)
    moreover from Inr True res t have "entryFor ko w l = Some ?e"
      by (simp add: entryFor_def)
    moreover have "plugin_Open ?w2 = plugin_Open w"
      by (simp add: plugin_Open_logger_Printf)
    ultimately show ?thesis by blast
  qed
qed

lemma initLangs_loop_Return:
  "initLangs_loop ko ks out w = Return (out', w') \<Longrightarrow>
     (\<forall>l\<in>set ks. entryFor ko w l \<noteq> None) \<and>
     out' = (\<lambda>k. if k \<in> set ks then entryFor ko w k else out k)"
proof (induction ks arbitrary: out w)
  case Nil
  then show ?case by simp
next
  case (Cons l ls)
  from initLangs_loop_Cons_Return [OF Cons.prems] obtain e w1 where
    e: "entryFor ko w l = Some e" and
    w1: "plugin_Open w1 = plugin_Open w" and
    rest: "initLangs_loop ko ls (out(l \<mapsto> e)) w1 = Return (out', w')"
    by blast
  have same: "entryFor ko w1 = entryFor ko w"
    using entryFor_plugin_Open [OF w1] by (intro ext)
  from Cons.IH [OF rest] same e show ?case
    by (auto simp: fun_eq_iff)
qed

lemma initLangs_loop_total:
  "\<forall>l\<in>set ks. entryFor ko w l \<noteq> None \<Longrightarrow> \<exists>r. initLangs_loop ko ks out w = Return r"
proof (induction ks arbitrary: out w)
  case Nil
  then show ?case by simp
next
  case (Cons l ls)
  have tl: "\<forall>l\<in>set ls. entryFor ko w1 l \<noteq> None" if "plugin_Open w1 = plugin_Open w" for w1
    using Cons.prems entryFor_plugin_Open [OF that] by simp
  from Cons.prems obtain lang where
    um: "UnmarshalWithConf ko (''lang.'' @ l) newLang = Inr lang"
    by (auto simp: entryFor_def split: sum.splits)
  show ?case
  proof (cases "TokenizerType lang = ''plugin''")
    case False
    with um Cons.IH [OF tl] show ?thesis
      by (simp add: Let_def plugin_Open_logger_Printf)
  next
    case True
    with Cons.prems um obtain t where
      "loadTokenizerPlugin w (TokenizerName lang) = (Some t, None)"
      by (auto simp: entryFor_def split: prod.splits option.splits)
    with um True Cons.IH [OF tl] show ?thesis
      by (simp add: Let_def plugin_Open_logger_Printf
            loadTokenizerPlugin_plugin_Open [OF plugin_Open_logger_Printf])
  qed
qed

lemma initLangs_loop_stuck:
  assumes "l \<in> set ks" and "entryFor ko w l = None"
  shows "initLangs_loop ko ks out w \<noteq> Return r"
proof
  assume ret: "initLangs_loop ko ks out w = Return r"
  obtain out' w' where "r = (out', w')" by (cases r)
  with ret have "\<forall>l\<in>set ks. entryFor ko w l \<noteq> None"
    using initLangs_loop_Return [of ko ks out w out' w'] by simp
  with assms show False by blast
qed


lemma entryFor_Some:
  "entryFor ko w l = Some e \<Longrightarrow>
     \<exists>lang. UnmarshalWithConf ko (''lang.'' @ l) newLang = Inr lang \<and>
       (TokenizerType lang = ''plugin'' \<longrightarrow>
          (\<exists>t. loadTokenizerPlugin w (TokenizerName lang) = (Some t, None) \<and>
               e = lang\<lparr>Tokenizer := Some t, TokenizerName := ID t\<rparr>)) \<and>
       (TokenizerType lang \<noteq> ''plugin'' \<longrightarrow> e = lang)"
  by (auto simp: entryFor_def split: sum.splits if_splits prod.splits option.splits)

lemma initLangs_Return_entry:
  assumes "initLangs ko w = Return (out, w')" and "l \<in> set (MapKeys ko ''lang'')"
  shows "\<exists>e. entryFor ko w l = Some e \<and> out l = Some e"
  using initLangs_loop_Return [OF assms(1) [unfolded initLangs_def]] assms(2) by auto

lemma demo_initLangs:
  "initLangs demoKoanf demoWorld =
     Return ([''en'' \<mapsto> newLang\<lparr>Name := ''English'', Types := [''noun'' \<mapsto> ''Noun''],
                       TokenizerName := ''english'', TokenizerType := ''postgres''\<rparr>,
              ''ml'' \<mapsto> newLang\<lparr>Name := ''Malayalam'', Types := [''noun'' \<mapsto> ''Namam''],
                       TokenizerName := ''phonetic'', TokenizerType := ''plugin'',
                       Tokenizer := Some demoTokenizer\<rparr>],
             demoWorld\<lparr>logger := [''language: en'', ''language: ml'', ''loaded tokenizer phonetic'']\<rparr>)"
  by (simp add: initLangs_def demoKoanf_def Let_def loadTokenizerPlugin_def demoWorld_def
        demoPlugin_def demoTokenizer_def logger_Printf_def newLang_def)

text \<open>
  Claim C1. When a language of the configuration has the tokenizer type \<^verbatim>\<open>plugin\<close>
  and \<open>loadTokenizerPlugin\<close> returns an error for its plugin, \<open>initLangs\<close> does not
  return a \<^verbatim>\<open>LangMap\<close>: the process ends in \<^verbatim>\<open>log.Fatalf\<close> or, where an earlier
  language made the runtime panic, in that panic. The round of the loop that reaches
  this language ends in \<^verbatim>\<open>log.Fatalf\<close> with the loader's error, whatever came
  before: the code has no other branch for the error.
\<close>

theorem initLangs_plugin_failure_fatal:
  assumes "l \<in> set (MapKeys ko ''lang'')"
    and "UnmarshalWithConf ko (''lang.'' @ l) newLang = Inr lang"
    and "TokenizerType lang = ''plugin''"
    and "snd (loadTokenizerPlugin w (TokenizerName lang)) = Some err"
  shows "(\<forall>r. initLangs ko w \<noteq> Return r)
     \<and> ((\<exists>m. initLangs ko w = Fatal m) \<or> (\<exists>m. initLangs ko w = Panic m))
     \<and> (\<forall>ls out. initLangs_loop ko (l # ls) out w =
           Fatal (''error loading tokenizer plugin for '' @ l @ '': '' @ err))"
proof -
  from assms(2-4) have none: "entryFor ko w l = None"
    by (auto simp: entryFor_def split: prod.splits option.splits)
  have noret: "\<forall>r. initLangs ko w \<noteq> Return r"
    unfolding initLangs_def using initLangs_loop_stuck [OF assms(1) none] by blast
  then have halt: "(\<exists>m. initLangs ko w = Fatal m) \<or> (\<exists>m. initLangs ko w = Panic m)"
    by (cases "initLangs ko w") auto
  have ld: "loadTokenizerPlugin (logger_Printf w (''language: '' @ l)) (TokenizerName lang)
      = loadTokenizerPlugin w (TokenizerName lang)"
    by (rule loadTokenizerPlugin_plugin_Open) (rule plugin_Open_logger_Printf)
  obtain tk where "loadTokenizerPlugin w (TokenizerName lang) = (tk, Some err)"
    using assms(4) by (cases "loadTokenizerPlugin w (TokenizerName lang)") auto
  with assms(2,3) ld
  have "\<forall>ls out. initLangs_loop ko (l # ls) out w =
           Fatal (''error loading tokenizer plugin for '' @ l @ '': '' @ err)"
    by (simp add: Let_def split: option.splits)
  with noret halt show ?thesis by blast
qed

theorem initLangs_plugin_failure_fatal_witness:
  "initLangs brokenPluginKoanf demoWorld =
     Fatal (''error loading tokenizer plugin for ml: error loading tokenizer plugin ''
            @ quote @ ''xx.so'' @ quote @ '': cannot open'')"
proof -
  let ?w1 = "logger_Printf demoWorld ''language: en''"
  let ?ml = "newLang\<lparr>Name := ''Malayalam'', TokenizerName := ''xx.so'',
      TokenizerType := ''plugin''\<rparr>"
  let ?en = "newLang\<lparr>Name := ''English'', Types := [''noun'' \<mapsto> ''Noun''],
      TokenizerName := ''english'', TokenizerType := ''postgres''\<rparr>"
  have k: "''ml'' \<in> set (MapKeys brokenPluginKoanf ''lang'')"
    by (simp add: brokenPluginKoanf_def demoKoanf_def)
  have u: "UnmarshalWithConf brokenPluginKoanf (''lang.'' @ ''ml'') newLang = Inr ?ml"
    by (simp add: brokenPluginKoanf_def demoKoanf_def)
  have t: "TokenizerType ?ml = ''plugin''"
    by simp
  have e: "snd (loadTokenizerPlugin ?w1 (TokenizerName ?ml)) =
      Some (''error loading tokenizer plugin '' @ quote @ ''xx.so'' @ quote @ '': cannot open'')"
    by (simp add: loadTokenizerPlugin_def demoWorld_def logger_Printf_def)
  have en: "initLangs brokenPluginKoanf demoWorld =
     initLangs_loop brokenPluginKoanf [''ml''] [''en'' \<mapsto> ?en] ?w1"
    by (simp add: initLangs_def brokenPluginKoanf_def demoKoanf_def Let_def)
  from initLangs_plugin_failure_fatal [OF k u t e]
  have "initLangs_loop brokenPluginKoanf [''ml''] [''en'' \<mapsto> ?en] ?w1 =
     Fatal (''error loading tokenizer plugin for '' @ ''ml'' @ '': '' @
       (''error loading tokenizer plugin '' @ quote @ ''xx.so'' @ quote @ '': cannot open''))"
    by blast
  with en show ?thesis by simp
qed



text \<open>
  Claim C6. A map returned by \<open>initLangs\<close> has exactly the language codes under
  \<^verbatim>\<open>lang\<close> as its keys, and the entry of a code holds the name and the entry-type
  labels that the configuration decoded for it. A language whose section does not
  decode ends the process: \<open>initLangs\<close> returns nothing, and the round of the loop that
  reaches the language ends in \<^verbatim>\<open>log.Fatalf\<close>. When every section decodes and every
  plugin loads, \<open>initLangs\<close> does return.
\<close>

theorem initLangs_one_entry_per_language:
  "(\<forall>out w'. initLangs ko w = Return (out, w') \<longrightarrow>
      dom out = set (MapKeys ko ''lang'') \<and>
      (\<forall>l\<in>set (MapKeys ko ''lang'').
         \<exists>lang e. UnmarshalWithConf ko (''lang.'' @ l) newLang = Inr lang \<and> out l = Some e \<and>
           Name e = Name lang \<and> Types e = Types lang))
   \<and> (\<forall>l err. l \<in> set (MapKeys ko ''lang'') \<and>
         UnmarshalWithConf ko (''lang.'' @ l) newLang = Inl err \<longrightarrow>
         (\<forall>r. initLangs ko w \<noteq> Return r) \<and>
         (\<forall>ls out w1. initLangs_loop ko (l # ls) out w1 =
            Fatal (''error loading languages: '' @ err)))
   \<and> ((\<forall>l\<in>set (MapKeys ko ''lang'').
         \<exists>lang. UnmarshalWithConf ko (''lang.'' @ l) newLang = Inr lang \<and>
           (TokenizerType lang = ''plugin'' \<longrightarrow>
              (\<exists>t. loadTokenizerPlugin w (TokenizerName lang) = (Some t, None)))) \<longrightarrow>
       (\<exists>out w'. initLangs ko w = Return (out, w')))"
proof -
  have A: "\<forall>out w'. initLangs ko w = Return (out, w') \<longrightarrow>
      dom out = set (MapKeys ko ''lang'') \<and>
      (\<forall>l\<in>set (MapKeys ko ''lang'').
         \<exists>lang e. UnmarshalWithConf ko (''lang.'' @ l) newLang = Inr lang \<and> out l = Some e \<and>
           Name e = Name lang \<and> Types e = Types lang)"
  proof (intro allI impI)
    fix out w'
    assume ret: "initLangs ko w = Return (out, w')"
    from initLangs_loop_Return [OF ret [unfolded initLangs_def]]
    have all: "\<forall>l\<in>set (MapKeys ko ''lang''). entryFor ko w l \<noteq> None"
      and out: "out = (\<lambda>k. if k \<in> set (MapKeys ko ''lang'') then entryFor ko w k else Map.empty k)"
      by blast+
    from all out have d: "dom out = set (MapKeys ko ''lang'')"
      by (auto simp: dom_def)
    have "\<exists>lang e. UnmarshalWithConf ko (''lang.'' @ l) newLang = Inr lang \<and> out l = Some e \<and>
           Name e = Name lang \<and> Types e = Types lang"
      if l: "l \<in> set (MapKeys ko ''lang'')" for l
    proof -
      from initLangs_Return_entry [OF ret l] obtain e where
        e: "entryFor ko w l = Some e" and o: "out l = Some e" by blast
      from entryFor_Some [OF e] obtain lang where
        um: "UnmarshalWithConf ko (''lang.'' @ l) newLang = Inr lang" and
        p: "TokenizerType lang = ''plugin'' \<longrightarrow>
          (\<exists>t. e = lang\<lparr>Tokenizer := Some t, TokenizerName := ID t\<rparr>)" and
        q: "TokenizerType lang \<noteq> ''plugin'' \<longrightarrow> e = lang"
        by blast
      from p q have "Name e = Name lang \<and> Types e = Types lang"
        by (cases "TokenizerType lang = ''plugin''") auto
      with um o show ?thesis by blast
    qed
    with d show "dom out = set (MapKeys ko ''lang'') \<and>
      (\<forall>l\<in>set (MapKeys ko ''lang'').
         \<exists>lang e. UnmarshalWithConf ko (''lang.'' @ l) newLang = Inr lang \<and> out l = Some e \<and>
           Name e = Name lang \<and> Types e = Types lang)"
      by blast
  qed
  have B: "\<forall>l err. l \<in> set (MapKeys ko ''lang'') \<and>
         UnmarshalWithConf ko (''lang.'' @ l) newLang = Inl err \<longrightarrow>
         (\<forall>r. initLangs ko w \<noteq> Return r) \<and>
         (\<forall>ls out w1. initLangs_loop ko (l # ls) out w1 =
            Fatal (''error loading languages: '' @ err))"
  proof (intro allI impI)
    fix l err
    assume a: "l \<in> set (MapKeys ko ''lang'') \<and>
           UnmarshalWithConf ko (''lang.'' @ l) newLang = Inl err"
    then have "entryFor ko w l = None" by (simp add: entryFor_def)
    with a have "\<forall>r. initLangs ko w \<noteq> Return r"
      unfolding initLangs_def using initLangs_loop_stuck by blast
    moreover from a have "\<forall>ls out w1. initLangs_loop ko (l # ls) out w1 =
              Fatal (''error loading languages: '' @ err)"
      by simp
    ultimately show "(\<forall>r. initLangs ko w \<noteq> Return r) \<and>
           (\<forall>ls out w1. initLangs_loop ko (l # ls) out w1 =
              Fatal (''error loading languages: '' @ err))"
      by blast
  qed
  have C: "(\<forall>l\<in>set (MapKeys ko ''lang'').
         \<exists>lang. UnmarshalWithConf ko (''lang.'' @ l) newLang = Inr lang \<and>
           (TokenizerType lang = ''plugin'' \<longrightarrow>
              (\<exists>t. loadTokenizerPlugin w (TokenizerName lang) = (Some t, None)))) \<longrightarrow>
       (\<exists>out w'. initLangs ko w = Return (out, w'))"
  proof
    assume good: "\<forall>l\<in>set (MapKeys ko ''lang'').
           \<exists>lang. UnmarshalWithConf ko (''lang.'' @ l) newLang = Inr lang \<and>
             (TokenizerType lang = ''plugin'' \<longrightarrow>
                (\<exists>t. loadTokenizerPlugin w (TokenizerName lang) = (Some t, None)))"
    have "\<forall>l\<in>set (MapKeys ko ''lang''). entryFor ko w l \<noteq> None"
    proof
      fix l assume "l \<in> set (MapKeys ko ''lang'')"
      with good obtain lang where
        "UnmarshalWithConf ko (''lang.'' @ l) newLang = Inr lang"
        "TokenizerType lang = ''plugin'' \<longrightarrow>
                (\<exists>t. loadTokenizerPlugin w (TokenizerName lang) = (Some t, None))"
        by blast
      then show "entryFor ko w l \<noteq> None"
        by (auto simp: entryFor_def)
    qed
    from initLangs_loop_total [OF this]
    show "\<exists>out w'. initLangs ko w = Return (out, w')"
      unfolding initLangs_def by (metis surj_pair)
  qed
  show ?thesis
    by (rule conjI [OF A conjI [OF B C]])
qed


theorem initLangs_one_entry_per_language_witness:
  "(\<exists>out w'. initLangs demoKoanf demoWorld = Return (out, w') \<and>
      dom out = {''en'', ''ml''} \<and>
      map_option Name (out ''en'') = Some ''English'' \<and>
      map_option Types (out ''ml'') = Some [''noun'' \<mapsto> ''Namam''])
   \<and> initLangs brokenLangKoanf demoWorld = Fatal ''error loading languages: types: expected a map''"
proof -
  let ?en = "newLang\<lparr>Name := ''English'', Types := [''noun'' \<mapsto> ''Noun''],
      TokenizerName := ''english'', TokenizerType := ''postgres''\<rparr>"
  let ?w1 = "logger_Printf demoWorld ''language: en''"
  note main = initLangs_one_entry_per_language
  have keys: "set (MapKeys demoKoanf ''lang'') = {''en'', ''ml''}"
    by (auto simp: demoKoanf_def)
  from main [of demoKoanf demoWorld] demo_initLangs keys
  have good: "\<exists>out w'. initLangs demoKoanf demoWorld = Return (out, w') \<and>
      dom out = {''en'', ''ml''} \<and>
      map_option Name (out ''en'') = Some ''English'' \<and>
      map_option Types (out ''ml'') = Some [''noun'' \<mapsto> ''Namam'']"
    by (simp add: newLang_def)
  have k: "''ml'' \<in> set (MapKeys brokenLangKoanf ''lang'')"
    by (simp add: brokenLangKoanf_def demoKoanf_def)
  have u: "UnmarshalWithConf brokenLangKoanf (''lang.'' @ ''ml'') newLang = Inl ''types: expected a map''"
    by (simp add: brokenLangKoanf_def demoKoanf_def)
  have en: "initLangs brokenLangKoanf demoWorld =
     initLangs_loop brokenLangKoanf [''ml''] [''en'' \<mapsto> ?en] ?w1"
    by (simp add: initLangs_def brokenLangKoanf_def demoKoanf_def Let_def)
  from main [of brokenLangKoanf demoWorld] k u
  have "initLangs_loop brokenLangKoanf [''ml''] [''en'' \<mapsto> ?en] ?w1 =
     Fatal (''error loading languages: '' @ ''types: expected a map'')"
    by blast
  with en good show ?thesis by simp
qed


subsection \<open>The asset file system\<close>

text \<open>
  Claim C8, as amended. \<open>initFileSystem\<close> returns the error of \<^verbatim>\<open>os.Executable()\<close>
  at once when that call fails, with no fallback. When the path is known and
  \<^verbatim>\<open>stuffbin.UnStuff\<close> succeeds, it returns the embedded file system. When
  \<^verbatim>\<open>UnStuff\<close> fails, that error is logged and not returned: the result is that of
  \<^verbatim>\<open>stuffbin.NewLocalFS("/", "config.toml.sample", "queries.sql", "schema.sql")\<close>,
  its error wrapped. So an error is returned exactly when \<^verbatim>\<open>os.Executable()\<close> fails,
  or \<^verbatim>\<open>UnStuff\<close> and the local fallback both fail.
\<close>

theorem initFileSystem_cases:
  "(\<forall>err. os_Executable w = Inl err \<longrightarrow> initFileSystem w = (Inl err, w))
   \<and> (\<forall>path fs. os_Executable w = Inr path \<and> stuffbin_UnStuff w path = Inr fs \<longrightarrow>
         initFileSystem w = (Inr fs, w))
   \<and> (\<forall>path err. os_Executable w = Inr path \<and> stuffbin_UnStuff w path = Inl err \<longrightarrow>
         initFileSystem w =
           (case stuffbin_NewLocalFS w ''/'' [''config.toml.sample'', ''queries.sql'', ''schema.sql''] of
              Inl e \<Rightarrow> Inl (''failed to initialize local file for assets: '' @ e)
            | Inr fs \<Rightarrow> Inr fs,
            w\<lparr>logger := logger w @ [''unable to initialize embedded filesystem: '' @ err,
                                    ''using local filesystem for static assets'']\<rparr>))
   \<and> (isl (fst (initFileSystem w)) =
        (isl (os_Executable w) \<or>
         (\<exists>path. os_Executable w = Inr path \<and> isl (stuffbin_UnStuff w path) \<and>
            isl (stuffbin_NewLocalFS w ''/'' [''config.toml.sample'', ''queries.sql'', ''schema.sql'']))))"
  unfolding initFileSystem_def
  by (auto simp: Let_def logger_Printf_def split: sum.splits)

theorem initFileSystem_cases_witness:
  "initFileSystem noExecutableWorld = (Inl ''readlink /proc/self/exe: permission denied'', noExecutableWorld)
   \<and> initFileSystem stuffedWorld = (Inr demoFS, stuffedWorld)
   \<and> initFileSystem demoWorld =
        (Inr demoFS,
         demoWorld\<lparr>logger := [''unable to initialize embedded filesystem: no stuffed data'',
                               ''using local filesystem for static assets'']\<rparr>)"
  using initFileSystem_cases [of noExecutableWorld] initFileSystem_cases [of stuffedWorld]
    initFileSystem_cases [of demoWorld]
  by (simp add: noExecutableWorld_def stuffedWorld_def demoWorld_def)

text \<open>
  Claim C8 as it is written says that an error is returned only when the local
  fallback fails too. Where \<^verbatim>\<open>os.Executable()\<close> fails, \<open>initFileSystem\<close> returns
  an error although the local file system would have initialised.
\<close>

theorem initFileSystem_fallback_only_counterexample:
  "isl (fst (initFileSystem noExecutableWorld)) \<and>
   \<not> isl (stuffbin_NewLocalFS noExecutableWorld ''/''
            [''config.toml.sample'', ''queries.sql'', ''schema.sql''])"
  by (simp add: initFileSystem_def noExecutableWorld_def demoWorld_def)

subsection \<open>Generating a configuration file\<close>

lemma initFileSystem_world:
  "initFileSystem w = (r, w1) \<Longrightarrow> \<exists>lg. w1 = w\<lparr>logger := lg\<rparr>"
  unfolding initFileSystem_def
  by (auto simp: Let_def logger_Printf_def split: sum.splits intro: exI [of _ "logger w"])

lemma ioutil_WriteFile_disk:
  "ioutil_WriteFile w name b = (r, w') \<Longrightarrow> p \<noteq> name \<Longrightarrow> disk w' p = disk w p"
  by (auto simp: ioutil_WriteFile_def split: option.splits WriteFault.splits)

lemma ioutil_WriteFile_ok:
  "ioutil_WriteFile w name b = (None, w') \<Longrightarrow> disk w' = (disk w)(name \<mapsto> b)"
  by (auto simp: ioutil_WriteFile_def split: option.splits WriteFault.splits)

lemma os_IsNotExist_Stat:
  "os_IsNotExist (os_Stat w name) = (stat_fault w name = None \<and> disk w name = None)"
  by (auto simp: os_Stat_def split: option.splits)

text \<open>
  Claim C7. When \<^verbatim>\<open>config.toml\<close> exists, \<open>generateNewFiles\<close> returns an error and
  leaves everything as it was. Whenever a call changes the files at all,
  \<^verbatim>\<open>config.toml\<close> did not exist before and no other file is touched; and a call that
  returns no error has written to \<^verbatim>\<open>config.toml\<close>, which did not exist, the bytes
  that the asset file system holds for \<^verbatim>\<open>config.toml.sample\<close>.
\<close>

theorem generateNewFiles_keeps_existing_config:
  "(\<forall>c. disk w ''config.toml'' = Some c \<longrightarrow>
      generateNewFiles w = (Some ''config.toml exists. Remove it to generate a new one'', w))
   \<and> (\<forall>r w'. generateNewFiles w = (r, w') \<and> disk w' \<noteq> disk w \<longrightarrow>
         disk w ''config.toml'' = None \<and>
         (\<forall>p. p \<noteq> ''config.toml'' \<longrightarrow> disk w' p = disk w p))
   \<and> (\<forall>w'. generateNewFiles w = (None, w') \<longrightarrow>
         disk w ''config.toml'' = None \<and>
         (\<exists>fs w1 b. initFileSystem w = (Inr fs, w1) \<and> Read fs ''config.toml.sample'' = Inr b \<and>
            disk w' = (disk w)(''config.toml'' \<mapsto> b)))"
proof -
  have A: "\<forall>c. disk w ''config.toml'' = Some c \<longrightarrow>
      generateNewFiles w = (Some ''config.toml exists. Remove it to generate a new one'', w)"
    by (simp add: generateNewFiles_def os_IsNotExist_Stat)
  have B: "\<forall>r w'. generateNewFiles w = (r, w') \<and> disk w' \<noteq> disk w \<longrightarrow>
         disk w ''config.toml'' = None \<and>
         (\<forall>p. p \<noteq> ''config.toml'' \<longrightarrow> disk w' p = disk w p)"
  proof (intro allI impI)
    fix r w'
    assume a: "generateNewFiles w = (r, w') \<and> disk w' \<noteq> disk w"
    then have ne: "os_IsNotExist (os_Stat w ''config.toml'')"
      by (auto simp: generateNewFiles_def split: if_splits)
    then have none: "disk w ''config.toml'' = None"
      by (simp add: os_IsNotExist_Stat)
    obtain res w1 where ifs: "initFileSystem w = (res, w1)"
      by (cases "initFileSystem w")
    from initFileSystem_world [OF ifs] have d1: "disk w1 = disk w" by auto
    have "disk w' p = disk w p" if "p \<noteq> ''config.toml''" for p
      using a ne ifs d1 that
      by (auto simp: generateNewFiles_def split: sum.splits prod.splits option.splits
            dest: ioutil_WriteFile_disk)
    with none show "disk w ''config.toml'' = None \<and>
         (\<forall>p. p \<noteq> ''config.toml'' \<longrightarrow> disk w' p = disk w p)"
      by blast
  qed
  have C: "\<forall>w'. generateNewFiles w = (None, w') \<longrightarrow>
         disk w ''config.toml'' = None \<and>
         (\<exists>fs w1 b. initFileSystem w = (Inr fs, w1) \<and> Read fs ''config.toml.sample'' = Inr b \<and>
            disk w' = (disk w)(''config.toml'' \<mapsto> b))"
  proof (intro allI impI)
    fix w'
    assume a: "generateNewFiles w = (None, w')"
    then have ne: "os_IsNotExist (os_Stat w ''config.toml'')"
      by (auto simp: generateNewFiles_def split: if_splits)
    then have none: "disk w ''config.toml'' = None"
      by (simp add: os_IsNotExist_Stat)
    obtain res w1 where ifs: "initFileSystem w = (res, w1)"
      by (cases "initFileSystem w")
    from initFileSystem_world [OF ifs] have d1: "disk w1 = disk w" by auto
    from a ne ifs obtain fs b where
      fs: "res = Inr fs" and rd: "Read fs ''config.toml.sample'' = Inr b" and
      wr: "ioutil_WriteFile w1 ''config.toml'' b = (None, w')"
      by (auto simp: generateNewFiles_def split: sum.splits prod.splits option.splits)
    from ioutil_WriteFile_ok [OF wr] d1 have "disk w' = (disk w)(''config.toml'' \<mapsto> b)"
      by simp
    with none ifs fs rd show "disk w ''config.toml'' = None \<and>
         (\<exists>fs w1 b. initFileSystem w = (Inr fs, w1) \<and> Read fs ''config.toml.sample'' = Inr b \<and>
            disk w' = (disk w)(''config.toml'' \<mapsto> b))"
      by blast
  qed
  show ?thesis
    by (rule conjI [OF A conjI [OF B C]])
qed

theorem generateNewFiles_keeps_existing_config_witness:
  "generateNewFiles existingConfigWorld =
     (Some ''config.toml exists. Remove it to generate a new one'', existingConfigWorld)
   \<and> fst (generateNewFiles demoWorld) = None
   \<and> disk (snd (generateNewFiles demoWorld)) = [''config.toml'' \<mapsto> ''[app]'']"
proof -
  have e: "disk existingConfigWorld ''config.toml'' = Some ''[app] # mine''"
    by (simp add: existingConfigWorld_def)
  have run: "generateNewFiles demoWorld =
     (None, demoWorld\<lparr>logger := [''unable to initialize embedded filesystem: no stuffed data'',
                               ''using local filesystem for static assets''],
                       disk := [''config.toml'' \<mapsto> ''[app]'']\<rparr>)"
    by (simp add: generateNewFiles_def os_Stat_def initFileSystem_def Let_def logger_Printf_def
          ioutil_WriteFile_def demoWorld_def demoFS_def)
  from generateNewFiles_keeps_existing_config [of existingConfigWorld] e
  have "generateNewFiles existingConfigWorld =
     (Some ''config.toml exists. Remove it to generate a new one'', existingConfigWorld)"
    by blast
  moreover
  from generateNewFiles_keeps_existing_config [of demoWorld] run
  have "disk (snd (generateNewFiles demoWorld)) = [''config.toml'' \<mapsto> ''[app]'']"
    by simp
  ultimately show ?thesis using run by simp
qed

subsection \<open>Routes\<close>

lemma routes_initHandlers:
  "routes (initHandlers r app) = routes r @
     (if Site (constants app) \<noteq> '''' then
        [(GET, ''/'', wrap app handleIndexPage),
         (GET, ''/dictionary/{fromLang}/{toLang}/{q}'', wrap app handleSearchPage),
         (GET, ''/dictionary/{fromLang}/{toLang}'', wrap app handleGlossaryPage),
         (GET, ''/glossary/{fromLang}/{toLang}/{initial}'', wrap app handleGlossaryPage),
         (GET, ''/glossary/{fromLang}/{toLang}'', wrap app handleGlossaryPage),
         (GET, ''/pages/{page}'', wrap app handleStaticPage),
         (GET, ''/static/*'',
            StripPrefix ''/static'' (FileServer (filepath_Join (Site (constants app)) ''static'')))]
      else [(GET, ''/'', sendResponse ''welcome to dictmaker'' 200)]) @
     [(GET, ''/admin/static/*'', StripPrefix ''/admin/static'' (FileServer (Dir ''admin/static''))),
      (GET, ''/admin'', wrap app (adminPage ''index'')),
      (GET, ''/admin/search'', wrap app (adminPage ''search'')),
      (GET, ''/admin/entries/{guid}'', wrap app (adminPage ''entry'')),
      (GET, ''/api/config'', wrap app handleGetConfig),
      (GET, ''/api/stats'', wrap app handleGetStats),
      (POST, ''/api/entries'', wrap app handleInsertEntry),
      (GET, ''/api/entries/{guid}'', wrap app handleGetEntry),
      (GET, ''/api/entries/{guid}/parents'', wrap app handleGetParentEntries),
      (DELETE, ''/api/entries/{guid}'', wrap app handleDeleteEntry),
      (DELETE, ''/api/entries/{fromGuid}/relations/{toGuid}'', wrap app handleDeleteRelation),
      (POST, ''/api/entries/{fromGuid}/relations/{toGuid}'', wrap app handleAddRelation),
      (PUT, ''/api/entries/{guid}/relations/weights'', wrap app handleReorderRelations),
      (PUT, ''/api/entries/{guid}/relations/{relID}'', wrap app handleUpdateRelation),
      (PUT, ''/api/entries/{guid}'', wrap app handleUpdateEntry),
      (GET, ''/api/dictionary/{fromLang}/{toLang}/{q}'', wrap app handleSearch)]"
  by (simp add: initHandlers_def Let_def Use_def Get_def Post_def Put_def Delete_def http_StatusOK_def)

text \<open>
  Claim C9. With a non-empty \<^verbatim>\<open>app.constants.Site\<close>, \<open>initHandlers\<close> registers the
  index page, the dictionary, glossary and pages routes and the static files, and then
  the admin and API routes; with an empty one it registers the greeting at
  \<^verbatim>\<open>/\<close> and then the same admin and API routes. So each of the site's routes is
  registered if and only if \<^verbatim>\<open>Site\<close> is non-empty, and the admin and API routes
  are registered in both cases.
\<close>

theorem initHandlers_site_routes:
  "(let fixed =
      [(GET, ''/admin/static/*'', StripPrefix ''/admin/static'' (FileServer (Dir ''admin/static''))),
       (GET, ''/admin'', wrap app (adminPage ''index'')),
       (GET, ''/admin/search'', wrap app (adminPage ''search'')),
       (GET, ''/admin/entries/{guid}'', wrap app (adminPage ''entry'')),
       (GET, ''/api/config'', wrap app handleGetConfig),
       (GET, ''/api/stats'', wrap app handleGetStats),
       (POST, ''/api/entries'', wrap app handleInsertEntry),
       (GET, ''/api/entries/{guid}'', wrap app handleGetEntry),
       (GET, ''/api/entries/{guid}/parents'', wrap app handleGetParentEntries),
       (DELETE, ''/api/entries/{guid}'', wrap app handleDeleteEntry),
       (DELETE, ''/api/entries/{fromGuid}/relations/{toGuid}'', wrap app handleDeleteRelation),
       (POST, ''/api/entries/{fromGuid}/relations/{toGuid}'', wrap app handleAddRelation),
       (PUT, ''/api/entries/{guid}/relations/weights'', wrap app handleReorderRelations),
       (PUT, ''/api/entries/{guid}/relations/{relID}'', wrap app handleUpdateRelation),
       (PUT, ''/api/entries/{guid}'', wrap app handleUpdateEntry),
       (GET, ''/api/dictionary/{fromLang}/{toLang}/{q}'', wrap app handleSearch)]
    in
      (Site (constants app) \<noteq> '''' \<longrightarrow>
         registered r app =
           [(GET, ''/'', wrap app handleIndexPage),
            (GET, ''/dictionary/{fromLang}/{toLang}/{q}'', wrap app handleSearchPage),
            (GET, ''/dictionary/{fromLang}/{toLang}'', wrap app handleGlossaryPage),
            (GET, ''/glossary/{fromLang}/{toLang}/{initial}'', wrap app handleGlossaryPage),
            (GET, ''/glossary/{fromLang}/{toLang}'', wrap app handleGlossaryPage),
            (GET, ''/pages/{page}'', wrap app handleStaticPage),
            (GET, ''/static/*'',
               StripPrefix ''/static''
                 (FileServer (filepath_Join (Site (constants app)) ''static'')))] @ fixed)
      \<and> (Site (constants app) = '''' \<longrightarrow>
           registered r app = (GET, ''/'', sendResponse ''welcome to dictmaker'' 200) # fixed)
      \<and> (\<forall>p\<in>{''/dictionary/{fromLang}/{toLang}/{q}'', ''/dictionary/{fromLang}/{toLang}'',
              ''/glossary/{fromLang}/{toLang}/{initial}'', ''/glossary/{fromLang}/{toLang}'',
              ''/pages/{page}'', ''/static/*''}.
            (\<exists>h. (GET, p, h) \<in> set (registered r app)) = (Site (constants app) \<noteq> ''''))
      \<and> ((GET, ''/'', wrap app handleIndexPage) \<in> set (registered r app)) =
            (Site (constants app) \<noteq> '''')
      \<and> set fixed \<subseteq> set (registered r app))"
proof (cases "Site (constants app) = ''''")
  case True
  then show ?thesis
    by (simp add: registered_def routes_initHandlers Let_def)
next
  case False
  then show ?thesis
    by (simp add: registered_def routes_initHandlers Let_def)
qed

theorem initHandlers_site_routes_witness:
  "(GET, ''/pages/{page}'', wrap demoApp handleStaticPage) \<in> set (registered chi_NewRouter demoApp)
   \<and> (GET, ''/'', wrap demoApp handleIndexPage) \<in> set (registered chi_NewRouter demoApp)
   \<and> (GET, ''/api/config'', wrap demoApp handleGetConfig) \<in> set (registered chi_NewRouter demoApp)
   \<and> registered chi_NewRouter apiOnlyApp ! 0 = (GET, ''/'', sendResponse ''welcome to dictmaker'' 200)
   \<and> \<not> (\<exists>h. (GET, ''/pages/{page}'', h) \<in> set (registered chi_NewRouter apiOnlyApp))
   \<and> (GET, ''/api/config'', wrap apiOnlyApp handleGetConfig) \<in> set (registered chi_NewRouter apiOnlyApp)"
proof -
  have d: "Site (constants demoApp) \<noteq> ''''" and a: "Site (constants apiOnlyApp) = ''''"
    by (simp_all add: demoApp_def apiOnlyApp_def)
  from initHandlers_site_routes [of demoApp chi_NewRouter] d
  have 1: "(GET, ''/pages/{page}'', wrap demoApp handleStaticPage) \<in> set (registered chi_NewRouter demoApp)
   \<and> (GET, ''/'', wrap demoApp handleIndexPage) \<in> set (registered chi_NewRouter demoApp)
   \<and> (GET, ''/api/config'', wrap demoApp handleGetConfig) \<in> set (registered chi_NewRouter demoApp)"
    by (simp add: Let_def)
  from initHandlers_site_routes [of apiOnlyApp chi_NewRouter] a
  have 2: "registered chi_NewRouter apiOnlyApp ! 0 = (GET, ''/'', sendResponse ''welcome to dictmaker'' 200)
   \<and> \<not> (\<exists>h. (GET, ''/pages/{page}'', h) \<in> set (registered chi_NewRouter apiOnlyApp))
   \<and> (GET, ''/api/config'', wrap apiOnlyApp handleGetConfig) \<in> set (registered chi_NewRouter apiOnlyApp)"
    by (simp add: Let_def)
  from 1 2 show ?thesis by blast
qed


section \<open>Properties of the relation graph\<close>

subsection \<open>Adding relations\<close>

lemma fold_max_Max:
  "fold max xs (x::int) = Max (insert x (set xs))"
proof (induction xs arbitrary: x)
  case Nil
  then show ?case by simp
next
  case (Cons y ys)
  have "Max (insert (max y x) (set ys)) = Max (insert x (insert y (set ys)))"
  proof (cases "set ys = {}")
    case True
    then show ?thesis by (simp add: max.commute)
  next
    case False
    then show ?thesis by (simp add: max.assoc max.commute)
  qed
  with Cons show ?case by simp
qed

lemma nextWeight_Max:
  "siblings g f ty \<noteq> [] \<Longrightarrow> nextWeight g f ty = Max (weight ` set (siblings g f ty)) + 1"
  by (cases "siblings g f ty") (simp_all add: nextWeight_def fold_max_Max)

lemma nextWeight_empty:
  "siblings g f ty = [] \<Longrightarrow> nextWeight g f ty = 0"
  by (simp add: nextWeight_def)


lemma nextWeight_upt:
  assumes "map weight (siblings g f ty) = map int [0..<k]"
  shows "nextWeight g f ty = int k"
proof (cases k)
  case 0
  with assms have "siblings g f ty = []" by simp
  with 0 show ?thesis by (simp add: nextWeight_empty)
next
  case (Suc n)
  with assms have ne: "siblings g f ty \<noteq> []" by auto
  have "weight ` set (siblings g f ty) = set (map weight (siblings g f ty))" by simp
  also have "\<dots> = int ` {0..<k}" using assms by simp
  finally have img: "weight ` set (siblings g f ty) = int ` {0..<k}" .
  have "Max (int ` {0..<k}) = int n"
  proof (rule Max_eqI)
    show "finite (int ` {0..<k})" by simp
    show "\<And>y. y \<in> int ` {0..<k} \<Longrightarrow> y \<le> int n" using Suc by auto
    show "int n \<in> int ` {0..<k}" using Suc by auto
  qed
  with nextWeight_Max [OF ne] img Suc show ?thesis by simp
qed

lemma hasEntry_addRelation:
  "addRelation g f t ty nt = (res, g1) \<Longrightarrow> hasEntry g1 x = hasEntry g x"
  by (auto simp: addRelation_def hasEntry_def split: if_splits)

lemma addRelation_ok:
  assumes "hasEntry g f" and "hasEntry g t"
    and "\<not> (\<exists>r\<in>set (relations g). fromEntryID r = f \<and> toEntryID r = t \<and> relationType r = ty)"
  shows "addRelation g f t ty nt =
     (None, g\<lparr>relations := relations g @
              [\<lparr>relID = nextRelID g, fromEntryID = f, toEntryID = t,
                relationType = ty, weight = nextWeight g f ty, relNote = nt\<rparr>],
           nextRelID := Suc (nextRelID g)\<rparr>)"
  using assms by (simp add: addRelation_def list_ex_iff)

lemma addRelations_Cons:
  "addRelations g f ty ((t, nt) # ts) =
     (fst (addRelation g f t ty nt) # fst (addRelations (snd (addRelation g f t ty nt)) f ty ts),
      snd (addRelations (snd (addRelation g f t ty nt)) f ty ts))"
  by (simp split: prod.splits)

lemma addRelations_append:
  assumes "hasEntry g f"
    and "\<forall>t\<in>fst ` set ts. hasEntry g t"
    and "distinct (map fst ts)"
    and "toEntryID ` set (siblings g f ty) \<inter> fst ` set ts = {}"
    and "map weight (siblings g f ty) = map int [0..<k]"
  shows "fst (addRelations g f ty ts) = replicate (length ts) None \<and>
     (\<exists>new. siblings (snd (addRelations g f ty ts)) f ty = siblings g f ty @ new \<and>
        map weight new = map int [k..<k + length ts] \<and>
        map toEntryID new = map fst ts)"
  using assms
proof (induction ts arbitrary: g k)
  case Nil
  then show ?case by simp
next
  case (Cons a ts)
  obtain t nt where a: "a = (t, nt)" by (cases a)
  let ?r = "\<lparr>relID = nextRelID g, fromEntryID = f, toEntryID = t,
             relationType = ty, weight = int k, relNote = nt\<rparr>"
  let ?g1 = "g\<lparr>relations := relations g @ [?r], nextRelID := Suc (nextRelID g)\<rparr>"
  have noconf: "\<not> (\<exists>r\<in>set (relations g). fromEntryID r = f \<and> toEntryID r = t \<and> relationType r = ty)"
    using Cons.prems(4) a by (auto simp: siblings_def)
  have ht: "hasEntry g t" using Cons.prems(2) a by simp
  have step: "addRelation g f t ty nt = (None, ?g1)"
    using addRelation_ok [OF Cons.prems(1) ht noconf] nextWeight_upt [OF Cons.prems(5)] by simp
  have sib1: "siblings ?g1 f ty = siblings g f ty @ [?r]"
    by (simp add: siblings_def)
  have p1: "hasEntry ?g1 f" using Cons.prems(1) by (simp add: hasEntry_def)
  have p2: "\<forall>t\<in>fst ` set ts. hasEntry ?g1 t" using Cons.prems(2) by (simp add: hasEntry_def)
  have p3: "distinct (map fst ts)" using Cons.prems(3) by simp
  have p4: "toEntryID ` set (siblings ?g1 f ty) \<inter> fst ` set ts = {}"
    using Cons.prems(3,4) a by (auto simp: sib1)
  have p5: "map weight (siblings ?g1 f ty) = map int [0..<Suc k]"
    using Cons.prems(5) by (simp add: sib1)
  from Cons.IH [OF p1 p2 p3 p4 p5] obtain new where
    r: "fst (addRelations ?g1 f ty ts) = replicate (length ts) None" and
    s: "siblings (snd (addRelations ?g1 f ty ts)) f ty = siblings ?g1 f ty @ new" and
    w: "map weight new = map int [Suc k..<Suc k + length ts]" and
    d: "map toEntryID new = map fst ts"
    by blast
  have res: "fst (addRelations g f ty (a # ts)) = replicate (length (a # ts)) None"
    using a step r by (simp add: addRelations_Cons del: addRelations.simps)
  have fin: "snd (addRelations g f ty (a # ts)) = snd (addRelations ?g1 f ty ts)"
    using a step by (simp add: addRelations_Cons del: addRelations.simps)
  have "siblings (snd (addRelations g f ty (a # ts))) f ty = siblings g f ty @ (?r # new)"
    using fin s sib1 by simp
  moreover have "[k..<k + length (a # ts)] = k # [Suc k..<Suc k + length ts]"
    by (subst upt_rec) (simp del: upt_Suc)
  then have "map weight (?r # new) = map int [k..<k + length (a # ts)]"
    using w by (simp del: upt_Suc)
  moreover have "map toEntryID (?r # new) = map fst (a # ts)"
    using d a by simp
  ultimately show ?case using res by blast
qed

text \<open>
  Claim C4. When both entries exist and the entry has no relation of this type to
  this target yet, \<open>addRelation\<close> appends one relation, whose weight is 0 if the
  (fromGuid, type) group is empty and the group's largest weight plus 1 otherwise.
  So \<open>N\<close> calls in a row for \<open>N\<close> different existing targets, into a group that has
  no relation before the first call, all succeed and leave the group with the weights
  \<open>0, \<dots>, N - 1\<close> in the order of the calls. After a successful call, a call with
  the same entry, target and type fails with \<open>Conflict\<close> and changes nothing.
\<close>

theorem addRelation_weights:
  "(hasEntry g f \<and> hasEntry g t \<and>
    \<not> (\<exists>r\<in>set (relations g). fromEntryID r = f \<and> toEntryID r = t \<and> relationType r = ty) \<longrightarrow>
      (\<exists>r. addRelation g f t ty nt =
              (None, g\<lparr>relations := relations g @ [r], nextRelID := Suc (nextRelID g)\<rparr>) \<and>
           fromEntryID r = f \<and> toEntryID r = t \<and> relationType r = ty \<and> relNote r = nt \<and>
           weight r = (if siblings g f ty = [] then 0
                       else Max (weight ` set (siblings g f ty)) + 1)))
   \<and> (hasEntry g f \<and> (\<forall>t\<in>fst ` set ts. hasEntry g t) \<and> distinct (map fst ts) \<and>
       siblings g f ty = [] \<longrightarrow>
        fst (addRelations g f ty ts) = replicate (length ts) None \<and>
        map weight (siblings (snd (addRelations g f ty ts)) f ty) = map int [0..<length ts] \<and>
        map toEntryID (siblings (snd (addRelations g f ty ts)) f ty) = map fst ts)
   \<and> (\<forall>g1. addRelation g f t ty nt = (None, g1) \<longrightarrow>
         addRelation g1 f t ty nt' = (Some Conflict, g1))"
proof -
  have A: "hasEntry g f \<and> hasEntry g t \<and>
    \<not> (\<exists>r\<in>set (relations g). fromEntryID r = f \<and> toEntryID r = t \<and> relationType r = ty) \<longrightarrow>
      (\<exists>r. addRelation g f t ty nt =
              (None, g\<lparr>relations := relations g @ [r], nextRelID := Suc (nextRelID g)\<rparr>) \<and>
           fromEntryID r = f \<and> toEntryID r = t \<and> relationType r = ty \<and> relNote r = nt \<and>
           weight r = (if siblings g f ty = [] then 0
                       else Max (weight ` set (siblings g f ty)) + 1))"
  proof
    assume h: "hasEntry g f \<and> hasEntry g t \<and>
      \<not> (\<exists>r\<in>set (relations g). fromEntryID r = f \<and> toEntryID r = t \<and> relationType r = ty)"
    let ?r = "\<lparr>relID = nextRelID g, fromEntryID = f, toEntryID = t,
                relationType = ty, weight = nextWeight g f ty, relNote = nt\<rparr>"
    from h have "addRelation g f t ty nt =
       (None, g\<lparr>relations := relations g @ [?r], nextRelID := Suc (nextRelID g)\<rparr>)"
      by (simp add: addRelation_ok)
    moreover have "weight ?r = (if siblings g f ty = [] then 0
                       else Max (weight ` set (siblings g f ty)) + 1)"
      by (simp add: nextWeight_empty nextWeight_Max)
    ultimately show "\<exists>r. addRelation g f t ty nt =
              (None, g\<lparr>relations := relations g @ [r], nextRelID := Suc (nextRelID g)\<rparr>) \<and>
           fromEntryID r = f \<and> toEntryID r = t \<and> relationType r = ty \<and> relNote r = nt \<and>
           weight r = (if siblings g f ty = [] then 0
                       else Max (weight ` set (siblings g f ty)) + 1)"
      by (intro exI [of _ ?r]) simp
  qed
  have B: "hasEntry g f \<and> (\<forall>t\<in>fst ` set ts. hasEntry g t) \<and> distinct (map fst ts) \<and>
       siblings g f ty = [] \<longrightarrow>
        fst (addRelations g f ty ts) = replicate (length ts) None \<and>
        map weight (siblings (snd (addRelations g f ty ts)) f ty) = map int [0..<length ts] \<and>
        map toEntryID (siblings (snd (addRelations g f ty ts)) f ty) = map fst ts"
  proof
    assume h: "hasEntry g f \<and> (\<forall>t\<in>fst ` set ts. hasEntry g t) \<and> distinct (map fst ts) \<and>
       siblings g f ty = []"
    then have e: "siblings g f ty = []" by simp
    from h have 1: "hasEntry g f" and 2: "\<forall>t\<in>fst ` set ts. hasEntry g t"
      and 3: "distinct (map fst ts)" by simp_all
    have 4: "toEntryID ` set (siblings g f ty) \<inter> fst ` set ts = {}" using e by simp
    have 5: "map weight (siblings g f ty) = map int [0..<0]" using e by simp
    from addRelations_append [OF 1 2 3 4 5] e
    show "fst (addRelations g f ty ts) = replicate (length ts) None \<and>
        map weight (siblings (snd (addRelations g f ty ts)) f ty) = map int [0..<length ts] \<and>
        map toEntryID (siblings (snd (addRelations g f ty ts)) f ty) = map fst ts"
      by auto
  qed
  have C: "\<forall>g1. addRelation g f t ty nt = (None, g1) \<longrightarrow>
         addRelation g1 f t ty nt' = (Some Conflict, g1)"
    by (auto simp: addRelation_def hasEntry_def list_ex_iff split: if_splits)
  show ?thesis
    by (rule conjI [OF A conjI [OF B C]])
qed

theorem addRelation_weights_witness:
  "addRelations demoGraph ''1'' ''synonym'' [(''2'', None), (''3'', None)] = ([None, None], synonymGraph)
   \<and> map weight (siblings synonymGraph ''1'' ''synonym'') = [0, 1]
   \<and> map toEntryID (siblings synonymGraph ''1'' ''synonym'') = [''2'', ''3'']
   \<and> addRelation synonymGraph ''1'' ''3'' ''synonym'' None = (Some Conflict, synonymGraph)"
proof -
  have run: "addRelations demoGraph ''1'' ''synonym'' [(''2'', None), (''3'', None)] =
      ([None, None], synonymGraph)"
    by (simp add: addRelation_def hasEntry_def nextWeight_def siblings_def demoGraph_def
          synonymGraph_def)
  have pre: "hasEntry demoGraph ''1'' \<and>
       (\<forall>t\<in>fst ` set [(''2'', None :: string option), (''3'', None)]. hasEntry demoGraph t) \<and>
       distinct (map fst [(''2'', None :: string option), (''3'', None)]) \<and>
       siblings demoGraph ''1'' ''synonym'' = []"
    by (simp add: hasEntry_def siblings_def demoGraph_def)
  from addRelation_weights [of demoGraph "''1''" "''2''" "''synonym''" None
      "[(''2'', None), (''3'', None)]" None] pre run
  have w: "map weight (siblings synonymGraph ''1'' ''synonym'') = [0, 1]
     \<and> map toEntryID (siblings synonymGraph ''1'' ''synonym'') = [''2'', ''3'']"
    by simp
  have step: "addRelation (snd (addRelations demoGraph ''1'' ''synonym'' [(''2'', None)])) ''1'' ''3''
      ''synonym'' None = (None, synonymGraph)"
    by (simp add: addRelation_def hasEntry_def nextWeight_def siblings_def demoGraph_def
          synonymGraph_def)
  from addRelation_weights [of "snd (addRelations demoGraph ''1'' ''synonym'' [(''2'', None)])"
      "''1''" "''3''" "''synonym''" None "[]" None] step
  have "addRelation synonymGraph ''1'' ''3'' ''synonym'' None = (Some Conflict, synonymGraph)"
    by blast
  with run w show ?thesis by simp
qed

subsection \<open>Reordering relations\<close>

lemma position_None: "(position xs x = None) = (x \<notin> set xs)"
  by (induction xs) auto

lemma position_first:
  "k < length xs \<Longrightarrow> xs ! k \<notin> set (take k xs) \<Longrightarrow> position xs (xs ! k) = Some k"
proof (induction xs arbitrary: k)
  case Nil
  then show ?case by simp
next
  case (Cons y ys)
  show ?case
  proof (cases k)
    case 0
    then show ?thesis by simp
  next
    case (Suc n)
    with Cons.prems have "n < length ys" "ys ! n \<notin> set (take n ys)" "ys ! n \<noteq> y"
      by auto
    with Cons.IH [of n] Suc show ?thesis by simp
  qed
qed

lemma position_Some:
  "position xs x = Some k \<Longrightarrow> k < length xs \<and> xs ! k = x"
proof (induction xs arbitrary: k)
  case Nil
  then show ?case by simp
next
  case (Cons y ys)
  show ?case
  proof (cases "x = y")
    case True
    with Cons.prems show ?thesis by simp
  next
    case False
    with Cons.prems obtain n where "position ys x = Some n" "k = Suc n" by auto
    with Cons.IH [of n] show ?thesis by simp
  qed
qed

lemma position_distinct:
  assumes "distinct xs" and "k < length xs"
  shows "position xs (xs ! k) = Some k"
proof -
  have "xs ! k \<notin> set (take k xs)"
  proof
    assume "xs ! k \<in> set (take k xs)"
    then obtain j where "j < k" "take k xs ! j = xs ! k"
      using assms(2) by (auto simp: in_set_conv_nth)
    with assms show False
      by (auto simp: distinct_conv_nth)
  qed
  with assms(2) show ?thesis by (rule position_first)
qed

lemma position_inj:
  "position xs a = Some k \<Longrightarrow> position xs b = Some k \<Longrightarrow> a = b"
  using position_Some [of xs a k] position_Some [of xs b k] by auto

lemma exactlyGroup_set:
  assumes "exactlyGroup ids gids"
  shows "set ids = set gids \<and> distinct gids \<and> distinct ids"
proof -
  from assms have d: "distinct ids" and l: "length ids = length gids"
    and sub: "set ids \<subseteq> set gids"
    by (auto simp: exactlyGroup_def list_all_iff)
  have "card (set gids) \<le> length gids" by (rule card_length)
  also have "\<dots> = card (set ids)" using d l by (simp add: distinct_card)
  finally have le: "card (set gids) \<le> card (set ids)" .
  have eq: "set ids = set gids"
    using sub le by (simp add: card_seteq)
  then have "card (set gids) = length gids" using d l by (metis distinct_card)
  then have "distinct gids" by (rule card_distinct)
  with eq d show ?thesis by simp
qed


lemma reweigh_frame:
  "fromEntryID (reweigh x ids r) = fromEntryID r"
  "relationType (reweigh x ids r) = relationType r"
  "relID (reweigh x ids r) = relID r"
  by (simp_all add: reweigh_def split: option.splits)

lemma reweigh_weight_only:
  "reweigh x ids r = r\<lparr>weight := weight (reweigh x ids r)\<rparr>"
  by (simp add: reweigh_def split: option.splits)

lemma reweigh_unnamed:
  "fromEntryID r \<noteq> x \<or> relID r \<notin> set ids \<Longrightarrow> reweigh x ids r = r"
  using position_None [of ids "relID r"] by (auto simp: reweigh_def split: option.splits)

lemma reweigh_named:
  "distinct ids \<Longrightarrow> k < length ids \<Longrightarrow> fromEntryID r = x \<Longrightarrow> relID r = ids ! k \<Longrightarrow>
     weight (reweigh x ids r) = int k"
  by (simp add: reweigh_def position_distinct)

lemma reweigh_Nil: "map (reweigh x []) rs = rs"
  by (induction rs) (simp_all add: reweigh_def)

lemma siblings_reweigh:
  "siblings (g\<lparr>relations := map (reweigh x ids) (relations g)\<rparr>) y ty =
     map (reweigh x ids) (siblings g y ty)"
  by (simp add: siblings_def filter_map comp_def reweigh_frame)

lemma reorderRelations_None:
  assumes "reorderRelations g x ids = (None, g')"
  shows "g' = g\<lparr>relations := map (reweigh x ids) (relations g)\<rparr> \<and>
     (ids = [] \<or>
      (\<exists>ty. relationTypeOf g x (hd ids) = Some ty \<and>
            exactlyGroup ids (map relID (siblings g x ty))))"
proof (cases ids)
  case Nil
  with assms show ?thesis
    by (simp add: reorderRelations_def reweigh_Nil split: if_splits)
next
  case (Cons i rest)
  with assms show ?thesis
    by (auto simp: reorderRelations_def split: if_splits option.splits)
qed

lemma reorderRelations_no_ties:
  assumes "exactlyGroup ids (map relID (siblings g x ty))"
  shows "distinct (map weight (map (reweigh x ids) (siblings g x ty)))"
proof -
  let ?sibs = "siblings g x ty"
  from exactlyGroup_set [OF assms] have
    eq: "set ids = set (map relID ?sibs)" and dg: "distinct (map relID ?sibs)"
    by simp_all
  have pos: "\<exists>k. position ids (relID r) = Some k \<and> weight (reweigh x ids r) = int k"
    if "r \<in> set ?sibs" for r
  proof -
    from that have fx: "fromEntryID r = x" by (simp add: siblings_def)
    from that eq have "relID r \<in> set ids" by auto
    then obtain k where "position ids (relID r) = Some k"
      using position_None [of ids "relID r"] by (cases "position ids (relID r)") auto
    with fx show ?thesis by (simp add: reweigh_def)
  qed
  have inj: "inj_on (\<lambda>r. weight (reweigh x ids r)) (set ?sibs)"
  proof (rule inj_onI)
    fix r1 r2
    assume r1: "r1 \<in> set ?sibs" and r2: "r2 \<in> set ?sibs"
      and w: "weight (reweigh x ids r1) = weight (reweigh x ids r2)"
    from pos [OF r1] pos [OF r2] w obtain k where
      "position ids (relID r1) = Some k" "position ids (relID r2) = Some k"
      by auto
    then have "relID r1 = relID r2" by (rule position_inj)
    with dg r1 r2 show "r1 = r2"
      by (auto simp: distinct_map dest: inj_onD)
  qed
  from dg have "distinct ?sibs" by (simp add: distinct_map)
  with inj show ?thesis by (simp add: distinct_map comp_def)
qed


lemma find_Some_pred:
  "find P xs = Some y \<Longrightarrow> P y \<and> y \<in> set xs"
  by (induction xs) (auto split: if_splits)

lemma find_None_pred:
  "find P xs = None \<Longrightarrow> \<forall>y\<in>set xs. \<not> P y"
  by (induction xs) (auto split: if_splits)

lemma reorderRelations_succeeds:
  assumes he: "hasEntry g x"
    and dr: "distinct (map relID (relations g))"
    and di: "distinct ids"
    and grp: "set ids = relID ` set (siblings g x ty)"
  shows "fst (reorderRelations g x ids) = None"
proof (cases ids)
  case Nil
  with he show ?thesis by (simp add: reorderRelations_def)
next
  case (Cons i rest)
  let ?gids = "map relID (siblings g x ty)"
  have all: "list_all (\<lambda>i. list_ex (\<lambda>r. relID r = i \<and> fromEntryID r = x) (relations g)) ids"
    using grp by (auto simp: list_all_iff list_ex_iff siblings_def)
  from Cons grp have "i \<in> relID ` set (siblings g x ty)" by auto
  then obtain r where r: "r \<in> set (relations g)" "relID r = i" "fromEntryID r = x"
    "relationType r = ty"
    by (auto simp: siblings_def)
  have ty: "relationTypeOf g x i = Some ty"
  proof (cases "find (\<lambda>r. relID r = i \<and> fromEntryID r = x) (relations g)")
    case None
    from find_None_pred [OF None] r show ?thesis by auto
  next
    case (Some r0)
    from find_Some_pred [OF Some] have "r0 \<in> set (relations g)" "relID r0 = i" by auto
    with r dr have "r0 = r" by (auto simp: distinct_map dest: inj_onD)
    with Some r show ?thesis by (simp add: relationTypeOf_def)
  qed
  have dg: "distinct ?gids"
    using dr by (simp add: siblings_def distinct_map_filter)
  have "length ids = card (set ids)" using di by (simp add: distinct_card)
  also have "\<dots> = card (set ?gids)" using grp by simp
  also have "\<dots> = length ?gids" using dg by (rule distinct_card)
  finally have len: "length ids = length ?gids" .
  have ex: "exactlyGroup ids ?gids"
    using di len grp by (auto simp: exactlyGroup_def list_all_iff)
  from he all Cons ty ex show ?thesis
    by (simp add: reorderRelations_def)
qed

text \<open>
  Claim C5. A successful \<open>reorderRelations\<close> changes nothing but weights: a relation
  of the entry whose ID is in the list gets the 0-based position of the ID in the list,
  and every other relation, of this entry or of another, stays as it was. The list of
  a successful call names the relations of one sibling group of the entry, each once,
  so the weights within that group are pairwise different afterwards. A failed call
  returns the graph it was given. The call succeeds whenever the entry exists, the
  relation IDs of the graph are pairwise different, and the list names the relations
  of one sibling group of the entry, each once.
\<close>

theorem reorderRelations_weights:
  "(\<forall>g'. reorderRelations g x ids = (None, g') \<longrightarrow>
      entries g' = entries g \<and> nextRelID g' = nextRelID g \<and>
      length (relations g') = length (relations g) \<and>
      (\<forall>n<length (relations g).
         relations g' ! n = (relations g ! n)\<lparr>weight := weight (relations g' ! n)\<rparr> \<and>
         (\<forall>k<length ids.
            fromEntryID (relations g ! n) = x \<and> relID (relations g ! n) = ids ! k \<longrightarrow>
              weight (relations g' ! n) = int k) \<and>
         (fromEntryID (relations g ! n) \<noteq> x \<or> relID (relations g ! n) \<notin> set ids \<longrightarrow>
            relations g' ! n = relations g ! n)) \<and>
      (\<forall>ty. ids \<noteq> [] \<and> relationTypeOf g x (hd ids) = Some ty \<longrightarrow>
         set ids = relID ` set (siblings g' x ty) \<and>
         distinct (map weight (siblings g' x ty))))
   \<and> (\<forall>e g'. reorderRelations g x ids = (Some e, g') \<longrightarrow> g' = g)
   \<and> (hasEntry g x \<and> distinct (map relID (relations g)) \<and> distinct ids \<and>
       (\<exists>ty. set ids = relID ` set (siblings g x ty)) \<longrightarrow>
         fst (reorderRelations g x ids) = None)"
proof -
  have A: "\<forall>g'. reorderRelations g x ids = (None, g') \<longrightarrow>
      entries g' = entries g \<and> nextRelID g' = nextRelID g \<and>
      length (relations g') = length (relations g) \<and>
      (\<forall>n<length (relations g).
         relations g' ! n = (relations g ! n)\<lparr>weight := weight (relations g' ! n)\<rparr> \<and>
         (\<forall>k<length ids.
            fromEntryID (relations g ! n) = x \<and> relID (relations g ! n) = ids ! k \<longrightarrow>
              weight (relations g' ! n) = int k) \<and>
         (fromEntryID (relations g ! n) \<noteq> x \<or> relID (relations g ! n) \<notin> set ids \<longrightarrow>
            relations g' ! n = relations g ! n)) \<and>
      (\<forall>ty. ids \<noteq> [] \<and> relationTypeOf g x (hd ids) = Some ty \<longrightarrow>
         set ids = relID ` set (siblings g' x ty) \<and>
         distinct (map weight (siblings g' x ty)))"
  proof (intro allI impI)
    fix g'
    assume ok: "reorderRelations g x ids = (None, g')"
    from reorderRelations_None [OF ok] have
      g': "g' = g\<lparr>relations := map (reweigh x ids) (relations g)\<rparr>" and
      grp: "ids = [] \<or> (\<exists>ty. relationTypeOf g x (hd ids) = Some ty \<and>
              exactlyGroup ids (map relID (siblings g x ty)))"
      by simp_all
    have di: "distinct ids"
      using grp exactlyGroup_set by auto
    have rows: "relations g' ! n = (relations g ! n)\<lparr>weight := weight (relations g' ! n)\<rparr> \<and>
         (\<forall>k<length ids.
            fromEntryID (relations g ! n) = x \<and> relID (relations g ! n) = ids ! k \<longrightarrow>
              weight (relations g' ! n) = int k) \<and>
         (fromEntryID (relations g ! n) \<noteq> x \<or> relID (relations g ! n) \<notin> set ids \<longrightarrow>
            relations g' ! n = relations g ! n)"
      if n: "n < length (relations g)" for n
    proof -
      have nth: "relations g' ! n = reweigh x ids (relations g ! n)"
        using n by (simp add: g')
      show ?thesis
        unfolding nth
        using reweigh_weight_only [of x ids "relations g ! n"]
          reweigh_named [OF di, of _ "relations g ! n" x]
          reweigh_unnamed [of "relations g ! n" x ids]
        by blast
    qed
    have ties: "set ids = relID ` set (siblings g' x ty) \<and>
         distinct (map weight (siblings g' x ty))"
      if t: "ids \<noteq> [] \<and> relationTypeOf g x (hd ids) = Some ty" for ty
    proof -
      from grp t have ex: "exactlyGroup ids (map relID (siblings g x ty))" by auto
      have sib: "siblings g' x ty = map (reweigh x ids) (siblings g x ty)"
        unfolding g' by (rule siblings_reweigh)
      from exactlyGroup_set [OF ex] have "set ids = relID ` set (siblings g x ty)" by simp
      then have "set ids = relID ` set (siblings g' x ty)"
        by (simp add: sib image_image reweigh_frame)
      with reorderRelations_no_ties [OF ex] sib show ?thesis by simp
    qed
    from rows ties show "entries g' = entries g \<and> nextRelID g' = nextRelID g \<and>
      length (relations g') = length (relations g) \<and>
      (\<forall>n<length (relations g).
         relations g' ! n = (relations g ! n)\<lparr>weight := weight (relations g' ! n)\<rparr> \<and>
         (\<forall>k<length ids.
            fromEntryID (relations g ! n) = x \<and> relID (relations g ! n) = ids ! k \<longrightarrow>
              weight (relations g' ! n) = int k) \<and>
         (fromEntryID (relations g ! n) \<noteq> x \<or> relID (relations g ! n) \<notin> set ids \<longrightarrow>
            relations g' ! n = relations g ! n)) \<and>
      (\<forall>ty. ids \<noteq> [] \<and> relationTypeOf g x (hd ids) = Some ty \<longrightarrow>
         set ids = relID ` set (siblings g' x ty) \<and>
         distinct (map weight (siblings g' x ty)))"
      by (simp add: g')
  qed
  have B: "\<forall>e g'. reorderRelations g x ids = (Some e, g') \<longrightarrow> g' = g"
    by (auto simp: reorderRelations_def split: if_splits list.splits option.splits)
  have C: "hasEntry g x \<and> distinct (map relID (relations g)) \<and> distinct ids \<and>
       (\<exists>ty. set ids = relID ` set (siblings g x ty)) \<longrightarrow>
         fst (reorderRelations g x ids) = None"
    using reorderRelations_succeeds by blast
  show ?thesis
    by (rule conjI [OF A conjI [OF B C]])
qed


theorem reorderRelations_weights_witness:
  "fst (reorderRelations reorderGraph ''1'' [1, 0]) = None
   \<and> map weight (relations (snd (reorderRelations reorderGraph ''1'' [1, 0]))) = [1, 0, 5]
   \<and> reorderRelations reorderGraph ''1'' [1] = (Some ValidationError, reorderGraph)
   \<and> reorderRelations reorderGraph ''1'' [2, 0] = (Some ValidationError, reorderGraph)
   \<and> reorderRelations reorderGraph ''1'' [1, 7] = (Some NotFound, reorderGraph)"
proof -
  have sib: "siblings reorderGraph ''1'' ''synonym'' =
      [\<lparr>relID = 0, fromEntryID = ''1'', toEntryID = ''2'', relationType = ''synonym'',
        weight = 0, relNote = None\<rparr>,
       \<lparr>relID = 1, fromEntryID = ''1'', toEntryID = ''3'', relationType = ''synonym'',
        weight = 1, relNote = None\<rparr>]"
    by (simp add: siblings_def reorderGraph_def synonymGraph_def demoGraph_def)
  have "set [1, 0] = relID ` set (siblings reorderGraph ''1'' ''synonym'')"
    unfolding sib by auto
  then have ok: "hasEntry reorderGraph ''1'' \<and> distinct (map relID (relations reorderGraph)) \<and>
      distinct [1, 0 :: nat] \<and>
      (\<exists>ty. set [1, 0] = relID ` set (siblings reorderGraph ''1'' ty))"
    by (auto simp: reorderGraph_def synonymGraph_def demoGraph_def hasEntry_def)
  from reorderRelations_weights [of reorderGraph "''1''" "[1, 0]"] ok
  have 1: "fst (reorderRelations reorderGraph ''1'' [1, 0]) = None"
    by blast
  have ty: "relationTypeOf reorderGraph ''1'' 1 = Some ''synonym''"
    by (simp add: relationTypeOf_def reorderGraph_def synonymGraph_def demoGraph_def)
  have pre: "hasEntry reorderGraph ''1''"
    by (simp add: reorderGraph_def synonymGraph_def demoGraph_def hasEntry_def)
  have rels: "list_ex (\<lambda>r. relID r = Suc 0 \<and> fromEntryID r = ''1'') (relations reorderGraph)"
    "list_ex (\<lambda>r. relID r = 0 \<and> fromEntryID r = ''1'') (relations reorderGraph)"
    by (simp_all add: reorderGraph_def synonymGraph_def demoGraph_def)
  have run: "reorderRelations reorderGraph ''1'' [1, 0] =
      (None, reorderGraph\<lparr>relations := map (reweigh ''1'' [1, 0]) (relations reorderGraph)\<rparr>)"
    using pre ty by (simp add: reorderRelations_def exactlyGroup_def sib rels)
  have 2: "map weight (relations (snd (reorderRelations reorderGraph ''1'' [1, 0]))) = [1, 0, 5]"
    unfolding run by (simp add: reweigh_def reorderGraph_def synonymGraph_def demoGraph_def)
  have "fst (reorderRelations reorderGraph ''1'' [1]) = Some ValidationError"
    using pre ty
    by (simp add: reorderRelations_def exactlyGroup_def sib)
      (simp add: reorderGraph_def synonymGraph_def demoGraph_def)
  with reorderRelations_weights [of reorderGraph "''1''" "[1]"]
  have 3: "reorderRelations reorderGraph ''1'' [1] = (Some ValidationError, reorderGraph)"
    by (metis prod.collapse)
  have "fst (reorderRelations reorderGraph ''1'' [1, 7]) = Some NotFound"
    by (simp add: reorderRelations_def reorderGraph_def synonymGraph_def demoGraph_def
          hasEntry_def)
  with reorderRelations_weights [of reorderGraph "''1''" "[1, 7]"]
  have 4: "reorderRelations reorderGraph ''1'' [1, 7] = (Some NotFound, reorderGraph)"
    by (metis prod.collapse)
  have "fst (reorderRelations reorderGraph ''1'' [2, 0]) = Some ValidationError"
    by (simp add: reorderRelations_def exactlyGroup_def relationTypeOf_def siblings_def
          reorderGraph_def synonymGraph_def demoGraph_def hasEntry_def)
  with reorderRelations_weights [of reorderGraph "''1''" "[2, 0]"]
  have 5: "reorderRelations reorderGraph ''1'' [2, 0] = (Some ValidationError, reorderGraph)"
    by (metis prod.collapse)
  from 1 2 3 4 5 show ?thesis by blast
qed

end
